theory Spec2Isabelle
  imports Main
begin

unbundle bit_operations_syntax

section \<open>The Python primitives used by memalias.py\<close>

text \<open>
  The module is Python 2.  Its integers are unbounded (\<open>int\<close>), its strings are byte
  strings (\<open>string\<close>), and every exception it can raise is a value of \<open>error\<close>.
\<close>

datatype error = ValueError | IndexError | TypeError | OverflowError

subsection \<open>str.split\<close>

text \<open>\<open>s.split(c)\<close>: the pieces between the separators; never an empty list.\<close>

fun split_on :: "char \<Rightarrow> string \<Rightarrow> string list" where
  "split_on c [] = [[]]"
| "split_on c (x # xs) =
     (if x = c then [] # split_on c xs
      else (case split_on c xs of [] \<Rightarrow> [[x]] | p # ps \<Rightarrow> (x # p) # ps))"

text \<open>\<open>s.split(c, 1)\<close>: split at the first separator only.\<close>

definition split1 :: "char \<Rightarrow> string \<Rightarrow> string list" where
  "split1 c s =
     (if c \<in> set s then [takeWhile (\<lambda>x. x \<noteq> c) s, tl (dropWhile (\<lambda>x. x \<noteq> c) s)]
      else [s])"

subsection \<open>int(s) and int(s, 16)\<close>

definition isspace :: "char \<Rightarrow> bool" where
  "isspace c = (c \<in> set [CHR '' '', CHR 0x09, CHR 0x0A, CHR 0x0B, CHR 0x0C, CHR 0x0D])"

definition digit_val :: "char \<Rightarrow> nat option" where
  "digit_val c =
     (let n = of_char c :: nat in
      if 48 \<le> n \<and> n \<le> 57 then Some (n - 48)
      else if 97 \<le> n \<and> n \<le> 122 then Some (n - 87)
      else if 65 \<le> n \<and> n \<le> 90 then Some (n - 55)
      else None)"

definition is_digit :: "nat \<Rightarrow> char \<Rightarrow> bool" where
  "is_digit base c = (case digit_val c of None \<Rightarrow> False | Some d \<Rightarrow> d < base)"

definition digits_val :: "nat \<Rightarrow> string \<Rightarrow> int" where
  "digits_val base ds =
     foldl (\<lambda>acc c. acc * int base + (case digit_val c of None \<Rightarrow> 0 | Some d \<Rightarrow> int d)) 0 ds"

text \<open>
  \<open>int(s, base)\<close> for base 10 and 16: optional surrounding whitespace, an optional sign,
  for base 16 an optional \<open>0x\<close>/\<open>0X\<close> prefix that a hex digit follows, then at least one
  digit.  \<open>None\<close> stands for the ValueError.
\<close>

definition py_int :: "nat \<Rightarrow> string \<Rightarrow> int option" where
  "py_int base s =
     (let s1 = dropWhile isspace s;
          neg = (s1 \<noteq> [] \<and> hd s1 = CHR ''-'');
          s2 = (if s1 \<noteq> [] \<and> (hd s1 = CHR ''-'' \<or> hd s1 = CHR ''+'') then tl s1 else s1);
          s3 = (case s2 of
                  z # x # d # r \<Rightarrow>
                    if base = 16 \<and> z = CHR ''0'' \<and> (x = CHR ''x'' \<or> x = CHR ''X'') \<and> is_digit 16 d
                    then d # r else s2
                | _ \<Rightarrow> s2);
          ds = takeWhile (is_digit base) s3;
          rest = dropWhile (is_digit base) s3
      in if ds = [] \<or> \<not> list_all isspace rest then None
         else Some (if neg then - digits_val base ds else digits_val base ds))"

subsection \<open>The % formats\<close>

definition digit_char :: "nat \<Rightarrow> char" where
  "digit_char d = ''0123456789abcdef'' ! d"

fun dec_str :: "nat \<Rightarrow> string" where
  "dec_str n = (if n < 10 then [digit_char n] else dec_str (n div 10) @ [digit_char (n mod 10)])"

fun hex_str :: "nat \<Rightarrow> string" where
  "hex_str n = (if n < 16 then [digit_char n] else hex_str (n div 16) @ [digit_char (n mod 16)])"

declare dec_str.simps [simp del] hex_str.simps [simp del]

text \<open>A sign, then zeros up to the width, then the digits: \<open>%0<w>d\<close>, \<open>%0<w>x\<close>, \<open>%0<w>.3f\<close>.\<close>

definition zero_pad :: "nat \<Rightarrow> bool \<Rightarrow> string \<Rightarrow> string" where
  "zero_pad w neg ds =
     (let sign = (if neg then ''-'' else '''')
      in sign @ replicate (w - length sign - length ds) (CHR ''0'') @ ds)"

definition fmt_d :: "int \<Rightarrow> string" where
  "fmt_d n = zero_pad 0 (n < 0) (dec_str (nat \<bar>n\<bar>))"

definition fmt_07d :: "int \<Rightarrow> string" where
  "fmt_07d n = zero_pad 7 (n < 0) (dec_str (nat \<bar>n\<bar>))"

definition fmt_x :: "int \<Rightarrow> string" where
  "fmt_x n = zero_pad 0 (n < 0) (hex_str (nat \<bar>n\<bar>))"

definition fmt_08x :: "int \<Rightarrow> string" where
  "fmt_08x n = zero_pad 8 (n < 0) (hex_str (nat \<bar>n\<bar>))"

text \<open>\<open>%8s\<close>: right-justified in 8 columns, never truncated.\<close>

definition fmt_8s :: "string \<Rightarrow> string" where
  "fmt_8s s = replicate (8 - length s) (CHR '' '') @ s"

text \<open>
  \<open>"%07.3f" % (n / 1000.0)\<close> for the integer \<open>n\<close> of milliseconds.  The division and
  the format are floating point.  For \<open>0 \<le> n < 2 ^ 42 * 1000\<close> the integer is a double,
  the quotient is a double within \<open>2 ^ -12\<close> of \<open>n / 1000\<close>, and a thousand times that
  error is below one half: the three decimals printed are those of \<open>n\<close> itself, that is
  \<open>n div 1000 . n mod 1000\<close>, filled with zeros to 7 columns.  For every other \<open>n\<close> the
  result (a rendering of a rounded quotient, or OverflowError) is floating-point
  behaviour that is not modelled: the parameter \<open>far\<close> stands for it, so that whatever
  is proved holds for whatever the expression does there.
\<close>

definition fmt_07_3f :: "(int \<Rightarrow> error + string) \<Rightarrow> int \<Rightarrow> error + string" where
  "fmt_07_3f far n =
     (if 0 \<le> n \<and> n < 2 ^ 42 * 1000
      then (let a = nat n
            in Inr (zero_pad 7 False
                      (dec_str (a div 1000) @ ''.'' @
                       [digit_char (a div 100 mod 10), digit_char (a div 10 mod 10),
                        digit_char (a mod 10)])))
      else far n)"

text \<open>
  The worked examples of this theory run lines whose times are below that bound, where
  the parameter is never consulted; they pass a function that raises.
\<close>

abbreviation unused_far :: "int \<Rightarrow> error + string" where
  "unused_far \<equiv> (\<lambda>n. Inl OverflowError)"

text \<open>\<open>" ".join(xs)\<close>\<close>

fun join_sp :: "string list \<Rightarrow> string" where
  "join_sp [] = []"
| "join_sp [x] = x"
| "join_sp (x # y # ys) = x @ '' '' @ join_sp (y # ys)"

section \<open>Register list pre-processing\<close>

text \<open>
  A bit description is an integer bit number or a string (a comma separated list and/or
  hyphen separated range); a raw register entry is a bare name or a name with its bit
  descriptions.  After \<open>preproc\<close> an entry is the 1-tuple \<open>(name,)\<close> or the pair
  \<open>(name, parsebits(...))\<close>.
\<close>

datatype bitdesc = BitNum int | BitStr string

datatype rawinfo = RawName string | RawBits string "(bitdesc \<times> string) list"

datatype reginfo = Tuple1 string | Tuple2 string "(int \<times> string) list"

text \<open>\<open>tuple(range(a, b - 1, -1))\<close>: \<open>a, a - 1, ..., b\<close>, empty when \<open>a < b\<close>.\<close>

definition range_down :: "int \<Rightarrow> int \<Rightarrow> int list" where
  "range_down a b = rev [b..a]"

text \<open>One comma separated piece of a string description.\<close>

definition token_bits :: "string \<Rightarrow> error + int list" where
  "token_bits tok =
     (case split1 (CHR ''-'') tok of
        [first, second] \<Rightarrow>
          (case py_int 10 first of
             None \<Rightarrow> Inl ValueError
           | Some a \<Rightarrow>
               (case py_int 10 second of
                  None \<Rightarrow> Inl ValueError
                | Some b \<Rightarrow> Inr (range_down a b)))
      | _ \<Rightarrow>
          (case py_int 10 tok of
             None \<Rightarrow> Inl ValueError
           | Some a \<Rightarrow> Inr [a]))"

text \<open>The loop \<open>for bit in desc.split(','): bits += ...\<close>.\<close>

fun tokens_bits :: "string list \<Rightarrow> error + int list" where
  "tokens_bits [] = Inr []"
| "tokens_bits (t # ts) =
     (case token_bits t of
        Inl e \<Rightarrow> Inl e
      | Inr bs \<Rightarrow> (case tokens_bits ts of Inl e \<Rightarrow> Inl e | Inr cs \<Rightarrow> Inr (bs @ cs)))"

text \<open>\<open>1 << bit\<close>; a negative shift count raises ValueError.\<close>

definition shl1 :: "int \<Rightarrow> error + int" where
  "shl1 b = (if b < 0 then Inl ValueError else Inr (push_bit (nat b) 1))"

text \<open>The loop \<open>for bit in bits: mask |= (1 << bit)\<close>, from the mask so far.\<close>

fun bits_mask :: "int \<Rightarrow> int list \<Rightarrow> error + int" where
  "bits_mask msk [] = Inr msk"
| "bits_mask msk (b # bits) =
     (case shl1 b of Inl e \<Rightarrow> Inl e | Inr sh \<Rightarrow> bits_mask (msk OR sh) bits)"

text \<open>The body of the outer loop of \<open>parsebits\<close>: the mask of one description.\<close>

definition desc_mask :: "bitdesc \<Rightarrow> error + int" where
  "desc_mask desc =
     (case desc of
        BitNum b \<Rightarrow> shl1 b
      | BitStr s \<Rightarrow>
          (case tokens_bits (split_on (CHR '','') s) of
             Inl e \<Rightarrow> Inl e
           | Inr bits \<Rightarrow> bits_mask 0 bits))"

fun parsebits :: "(bitdesc \<times> string) list \<Rightarrow> error + (int \<times> string) list" where
  "parsebits [] = Inr []"
| "parsebits ((desc, val) # defs) =
     (case desc_mask desc of
        Inl e \<Rightarrow> Inl e
      | Inr msk \<Rightarrow>
          (case parsebits defs of Inl e \<Rightarrow> Inl e | Inr out \<Rightarrow> Inr ((msk, val) # out)))"

text \<open>
  \<open>preproc\<close>: a bare name becomes the 1-tuple \<open>(info,)\<close>, anything else the pair
  \<open>(info[0], parsebits(info[1]))\<close>.  A raw table is given by its items.
\<close>

fun preproc_regs :: "(int \<times> rawinfo) list \<Rightarrow> (int \<rightharpoonup> reginfo) \<Rightarrow> error + (int \<rightharpoonup> reginfo)" where
  "preproc_regs [] archinfo = Inr archinfo"
| "preproc_regs ((addr, info) # regs) archinfo =
     (case info of
        RawName n \<Rightarrow> preproc_regs regs (archinfo(addr \<mapsto> Tuple1 n))
      | RawBits n defs \<Rightarrow>
          (case parsebits defs of
             Inl e \<Rightarrow> Inl e
           | Inr bitdefs \<Rightarrow> preproc_regs regs (archinfo(addr \<mapsto> Tuple2 n bitdefs))))"

type_synonym regslist = "string \<rightharpoonup> (int \<rightharpoonup> reginfo)"

fun preproc_archs :: "(string \<times> (int \<times> rawinfo) list) list \<Rightarrow> regslist \<Rightarrow> error + regslist" where
  "preproc_archs [] rl = Inr rl"
| "preproc_archs ((name, regs) # rest) rl =
     (case preproc_regs regs Map.empty of
        Inl e \<Rightarrow> Inl e
      | Inr archinfo \<Rightarrow> preproc_archs rest (rl(name \<mapsto> archinfo)))"

definition preproc :: "(string \<times> (int \<times> rawinfo) list) list \<Rightarrow> error + regslist" where
  "preproc RegsList = preproc_archs RegsList Map.empty"

section \<open>Parsing: the regular expressions\<close>

text \<open>
  The constructs of Python's \<open>re\<close> that the patterns of the module use.  \<open>rmatch\<close> lists
  the ways a pattern matches from a position in the order the backtracking matcher tries
  them (a greedy repetition tries the longest run first, an optional part is tried
  before it is skipped); \<open>re_match\<close>, the \<open>match\<close> method, takes the first.
\<close>

datatype cclass = AnyChar | Digit | LowerHex

definition in_class :: "cclass \<Rightarrow> char \<Rightarrow> bool" where
  "in_class k c =
     (let n = of_char c :: nat in
      case k of
        AnyChar \<Rightarrow> n \<noteq> 10
      | Digit \<Rightarrow> 48 \<le> n \<and> n \<le> 57
      | LowerHex \<Rightarrow> (48 \<le> n \<and> n \<le> 57) \<or> (97 \<le> n \<and> n \<le> 102))"

datatype regex =
    Bol | Eol | Lit string | Star cclass | Plus cclass
  | Group string regex | Opt regex | Seq regex regex

type_synonym caps = "(string \<times> nat \<times> nat) list"

text \<open>The position, the rest of the subject from there, and the groups matched so far.\<close>

type_synonym mstate = "nat \<times> string \<times> caps"

fun rmatch :: "regex \<Rightarrow> mstate \<Rightarrow> mstate list" where
  "rmatch Bol (p, r, g) = (if p = 0 then [(p, r, g)] else [])"
| "rmatch Eol (p, r, g) = (if r = [] \<or> r = [CHR 0x0A] then [(p, r, g)] else [])"
| "rmatch (Lit l) (p, r, g) =
     (if take (length l) r = l then [(p + length l, drop (length l) r, g)] else [])"
| "rmatch (Star k) (p, r, g) =
     map (\<lambda>n. (p + n, drop n r, g)) (rev [0 ..< Suc (length (takeWhile (in_class k) r))])"
| "rmatch (Plus k) (p, r, g) =
     map (\<lambda>n. (p + n, drop n r, g)) (rev [1 ..< Suc (length (takeWhile (in_class k) r))])"
| "rmatch (Group n x) (p, r, g) =
     map (\<lambda>(p', r', g'). (p', r', (n, p, p') # g')) (rmatch x (p, r, g))"
| "rmatch (Opt x) (p, r, g) = rmatch x (p, r, g) @ [(p, r, g)]"
| "rmatch (Seq x y) (p, r, g) = concat (map (rmatch y) (rmatch x (p, r, g)))"

definition cat :: "regex list \<Rightarrow> regex" where
  "cat xs = foldr Seq xs (Lit [])"

text \<open>The named groups that take part in every match of a pattern.\<close>

primrec sure_groups :: "regex \<Rightarrow> string set" where
  "sure_groups Bol = {}"
| "sure_groups Eol = {}"
| "sure_groups (Lit l) = {}"
| "sure_groups (Star k) = {}"
| "sure_groups (Plus k) = {}"
| "sure_groups (Group n x) = insert n (sure_groups x)"
| "sure_groups (Opt x) = {}"
| "sure_groups (Seq x y) = sure_groups x \<union> sure_groups y"

text \<open>
  A match object: \<open>m.string\<close> and the span of every group that took part, the group
  matched last first.
\<close>

record match =
  mstring :: string
  spans :: caps

definition re_match :: "regex \<Rightarrow> string \<Rightarrow> match option" where
  "re_match x s =
     (case rmatch x (0, s, []) of
        [] \<Rightarrow> None
      | (p, r, g) # _ \<Rightarrow> Some \<lparr>mstring = s, spans = g\<rparr>)"

text \<open>
  \<open>m.group(n)\<close>, \<open>None\<close> for a group that took no part, and \<open>m.end(n)\<close>, -1 then.
  Of the groups the handlers read only \<open>clock\<close> can take no part in a match of its
  pattern (\<open>sure_groups\<close> lists the others); where a handler below meets \<open>None\<close>
  for one of the others it gives TypeError, a branch that no match of the handler's own
  pattern reaches.
\<close>

definition group :: "match \<Rightarrow> string \<Rightarrow> string option" where
  "group m n =
     (case map_of (spans m) n of
        None \<Rightarrow> None
      | Some (b, e) \<Rightarrow> Some (take (e - b) (drop b (mstring m))))"

definition mend :: "match \<Rightarrow> string \<Rightarrow> int" where
  "mend m n = (case map_of (spans m) n of None \<Rightarrow> - 1 | Some (b, e) \<Rightarrow> int e)"

text \<open>\<open>int(m.group(n), base)\<close>: TypeError on \<open>None\<close>, ValueError on a bad literal.\<close>

definition group_int :: "nat \<Rightarrow> match \<Rightarrow> string \<Rightarrow> error + int" where
  "group_int base m n =
     (case group m n of
        None \<Rightarrow> Inl TypeError
      | Some s \<Rightarrow> (case py_int base s of None \<Rightarrow> Inl ValueError | Some v \<Rightarrow> Inr v))"

definition TIMEPRE_S :: "regex list" where
  "TIMEPRE_S =
     [Bol, Group ''time'' (Plus Digit), Lit '': '',
      Opt (cat [Group ''clock'' (Plus LowerHex), Lit '': ''])]"

definition re_detect :: regex where
  "re_detect =
     cat [Bol, Lit ''Detected machine '', Group ''name'' (Star AnyChar), Lit ''/'',
          Group ''arch'' (Star AnyChar), Lit '' (Plat='', Star AnyChar, Lit '')'', Eol]"

definition re_begin :: regex where
  "re_begin = cat [Bol, Lit ''Beginning memory tracing.'', Eol]"

definition re_watch :: regex where
  "re_watch =
     cat [Bol, Lit ''Watching '', Group ''type'' (Star AnyChar), Lit ''('',
          Group ''pos'' (Plus Digit), Lit ''): Addr '', Group ''vaddr'' (Star AnyChar),
          Lit ''(@'', Group ''paddr'' (Star AnyChar), Lit '')'', Eol]"

definition re_mem :: regex where
  "re_mem =
     cat (TIMEPRE_S @
          [Lit ''mem '', Group ''vaddr'' (Star AnyChar), Lit ''='',
           Group ''val'' (Star AnyChar), Lit '' ('', Group ''changed'' (Star AnyChar),
           Lit '')'', Eol])"

section \<open>Memory display\<close>

text \<open>
  The objects stored in \<open>VirtMap\<close> are the bound methods \<open>md.displayFunc\<close>; the model
  stores the \<open>memDisplay\<close> object each is bound to.  The module's globals \<open>LastClock\<close>,
  \<open>VirtMap\<close> and \<open>ArchRegs\<close> are the fields of \<open>state\<close>; \<open>RegsList\<close>, which nothing
  changes after \<open>preproc\<close>, is a parameter.  Every \<open>print\<close> adds one string to the output.
\<close>

record memDisplay =
  md_type :: string
  md_pos :: int
  md_name :: string
  md_bitdefs :: "(int \<times> string) list"

record state =
  LastClock :: int
  VirtMap :: "string \<rightharpoonup> memDisplay"
  ArchRegs :: "int \<rightharpoonup> reginfo"

type_synonym result = "error + string list \<times> state"

definition getClock :: "(int \<Rightarrow> error + string) \<Rightarrow> match \<Rightarrow> state \<Rightarrow> error + string \<times> state" where
  "getClock far m st =
     (let clock = group m ''clock'' in
      case group_int 10 m ''time'' of
        Inl e \<Rightarrow> Inl e
      | Inr time \<Rightarrow>
          (case fmt_07_3f far time of
             Inl e \<Rightarrow> Inl e
           | Inr t \<Rightarrow>
               (case clock of
                  None \<Rightarrow> Inr (t, st)
                | Some c \<Rightarrow>
                    (case py_int 16 c of
                       None \<Rightarrow> Inl ValueError
                     | Some clock \<Rightarrow>
                         (let out = fmt_07d (clock - LastClock st)
                          in Inr (t @ ''('' @ out @ '')'', st\<lparr>LastClock := clock\<rparr>))))))"

text \<open>\<open>memDisplay.__init__\<close>; \<open>reginfo[1]\<close> of a 1-tuple raises IndexError.\<close>

definition memDisplay_init :: "reginfo \<Rightarrow> string \<Rightarrow> int \<Rightarrow> error + memDisplay" where
  "memDisplay_init reginfo ty pos =
     (case reginfo of
        Tuple1 n \<Rightarrow> Inl IndexError
      | Tuple2 n bitdefs \<Rightarrow>
          Inr \<lparr>md_type = (if ty \<noteq> [] then '' '' @ ty else []), md_pos = pos,
               md_name = n, md_bitdefs = bitdefs\<rparr>)"

text \<open>One turn of the loop \<open>for i in range(32)\<close> of \<open>getValue\<close>, on (count, outval, pos).\<close>

definition getValue_step :: "int \<Rightarrow> int \<Rightarrow> int \<Rightarrow> nat \<Rightarrow> nat \<times> int \<times> nat list \<Rightarrow> nat \<times> int \<times> nat list" where
  "getValue_step bits val changed i = (\<lambda>(count, outval, pos).
     (let b = push_bit i (1::int) in
      if b AND bits \<noteq> 0
      then (count + 1,
            (if b AND val \<noteq> 0 then outval OR push_bit count 1 else outval),
            (if b AND changed \<noteq> 0 then pos @ [i] else pos))
      else (count, outval, pos)))"

definition getValue :: "memDisplay \<Rightarrow> string \<Rightarrow> int \<Rightarrow> int \<Rightarrow> int \<Rightarrow> bool \<Rightarrow> string" where
  "getValue self desc bits val changed add_il =
     (case fold (getValue_step bits val changed) [0 ..< 32] (0, 0, []) of
        (count, outval, pos) \<Rightarrow>
          if add_il
          then (let ignorelist = join_sp (map (\<lambda>i. fmt_d (md_pos self * 32 + int i)) pos)
                in '' '' @ desc @ ''('' @ ignorelist @ '')='' @ fmt_x outval)
          else '' '' @ desc @ ''='' @ fmt_x outval)"

text \<open>The loop \<open>for bits, desc in self.bitdefs\<close> of \<open>displayFunc\<close>, on (out, unnamedbits).\<close>

fun display_fields :: "memDisplay \<Rightarrow> int \<Rightarrow> int \<Rightarrow> bool \<Rightarrow> (int \<times> string) list \<Rightarrow> string \<times> int \<Rightarrow> string \<times> int" where
  "display_fields self val changed notfirst [] (out, unnamedbits) = (out, unnamedbits)"
| "display_fields self val changed notfirst ((bits, desc) # defs) (out, unnamedbits) =
     (if bits AND changed \<noteq> 0
      then display_fields self val changed notfirst defs
             (out @ getValue self desc bits val changed notfirst, unnamedbits AND NOT bits)
      else display_fields self val changed notfirst defs (out, unnamedbits))"

text \<open>
  The string \<open>out\<close> that \<open>displayFunc\<close> builds: the fragments of the fields that
  changed, in table order, then the fragment of the bits no field names.
\<close>

definition display_out :: "memDisplay \<Rightarrow> int \<Rightarrow> int \<Rightarrow> bool \<Rightarrow> string" where
  "display_out self val changed notfirst =
     (case display_fields self val changed notfirst (md_bitdefs self) ([], changed) of
        (out, unnamedbits) \<Rightarrow>
          if unnamedbits \<noteq> 0
          then out @ getValue self ''?'' (NOT 0) (val AND unnamedbits) unnamedbits notfirst
          else out)"

definition displayFunc :: "(int \<Rightarrow> error + string) \<Rightarrow> memDisplay \<Rightarrow> match \<Rightarrow> state \<Rightarrow> result" where
  "displayFunc far self m st =
     (case group_int 16 m ''val'' of
        Inl e \<Rightarrow> Inl e
      | Inr val \<Rightarrow>
     (case group_int 16 m ''changed'' of
        Inl e \<Rightarrow> Inl e
      | Inr changed0 \<Rightarrow>
          (let notfirst = (changed0 \<noteq> 0);
               changed = (if changed0 = 0 then val else changed0);
               out = display_out self val changed notfirst
           in case getClock far m st of
                Inl e \<Rightarrow> Inl e
              | Inr (clk, st') \<Rightarrow>
                  if notfirst
                  then Inr ([clk @ md_type self @ '' '' @ fmt_8s (md_name self) @ '':'' @ out], st')
                  else Inr ([clk @ md_type self @ '' '' @ fmt_8s (md_name self) @ ''=''
                               @ fmt_08x val @ '':'' @ out], st'))))"

text \<open>\<open>print getClock(m), m.string[e+6:]\<close>: the two items with a space between.\<close>

definition defaultFunc :: "(int \<Rightarrow> error + string) \<Rightarrow> match \<Rightarrow> state \<Rightarrow> result" where
  "defaultFunc far m st =
     (let e = mend m ''clock'';
          e = (if e < 0 then mend m ''time'' else e)
      in case getClock far m st of
           Inl err \<Rightarrow> Inl err
         | Inr (clk, st') \<Rightarrow> Inr ([clk @ '' '' @ drop (nat (e + 6)) (mstring m)], st'))"

section \<open>Parsing: the handlers\<close>

definition handleWatch :: "match \<Rightarrow> state \<Rightarrow> result" where
  "handleWatch m st =
     (case group m ''vaddr'' of
        None \<Rightarrow> Inl TypeError
      | Some vaddr \<Rightarrow>
     (case group_int 16 m ''paddr'' of
        Inl e \<Rightarrow> Inl e
      | Inr paddr \<Rightarrow>
     (case group m ''type'' of
        None \<Rightarrow> Inl TypeError
      | Some ty \<Rightarrow>
     (case group_int 10 m ''pos'' of
        Inl e \<Rightarrow> Inl e
      | Inr pos \<Rightarrow>
          (case ArchRegs st paddr of
             Some reginfo \<Rightarrow>
               (case memDisplay_init reginfo ty pos of
                  Inl e \<Rightarrow> Inl e
                | Inr md \<Rightarrow> Inr ([mstring m], st\<lparr>VirtMap := (VirtMap st)(vaddr \<mapsto> md)\<rparr>))
           | None \<Rightarrow>
               (case memDisplay_init (Tuple2 vaddr []) ty pos of
                  Inl e \<Rightarrow> Inl e
                | Inr md \<Rightarrow> Inr ([mstring m], st\<lparr>VirtMap := (VirtMap st)(vaddr \<mapsto> md)\<rparr>)))))))"

definition handleBegin :: "match \<Rightarrow> state \<Rightarrow> result" where
  "handleBegin m st = Inr ([mstring m], st\<lparr>LastClock := 0, VirtMap := Map.empty\<rparr>)"

definition handleDetect :: "regslist \<Rightarrow> match \<Rightarrow> state \<Rightarrow> result" where
  "handleDetect RegsList m st =
     (case group m ''name'' of
        None \<Rightarrow> Inl TypeError
      | Some name \<Rightarrow>
          (case RegsList name of
             Some ar \<Rightarrow> Inr ([mstring m], st\<lparr>ArchRegs := ar\<rparr>)
           | None \<Rightarrow>
               (case group m ''arch'' of
                  None \<Rightarrow> Inl TypeError
                | Some arch \<Rightarrow>
                    (let ar = (case RegsList (''ARCH:'' @ arch) of None \<Rightarrow> Map.empty | Some a \<Rightarrow> a)
                     in Inr ([mstring m], st\<lparr>ArchRegs := ar\<rparr>)))))"

text \<open>\<open>line.rstrip()\<close>\<close>

definition rstrip :: "string \<Rightarrow> string" where
  "rstrip s = rev (dropWhile isspace (rev s))"

definition procline :: "(int \<Rightarrow> error + string) \<Rightarrow> regslist \<Rightarrow> string \<Rightarrow> state \<Rightarrow> result" where
  "procline far RegsList line st =
     (case re_match re_mem line of
        Some m \<Rightarrow>
          (case Option.bind (group m ''vaddr'') (VirtMap st) of
             None \<Rightarrow> defaultFunc far m st
           | Some func \<Rightarrow> displayFunc far func m st)
      | None \<Rightarrow>
     (case re_match re_watch line of
        Some m \<Rightarrow> handleWatch m st
      | None \<Rightarrow>
     (case re_match re_begin line of
        Some m \<Rightarrow> handleBegin m st
      | None \<Rightarrow>
     (case re_match re_detect line of
        Some m \<Rightarrow> handleDetect RegsList m st
      | None \<Rightarrow> Inr ([rstrip line], st)))))"

text \<open>The module as loaded: no clock seen, nothing watched, no architecture selected.\<close>

definition init_state :: state where
  "init_state = \<lparr>LastClock = 0, VirtMap = Map.empty, ArchRegs = Map.empty\<rparr>"

text \<open>A run of \<open>procline\<close> over successive lines; it stops at the first exception.\<close>

fun proclines :: "(int \<Rightarrow> error + string) \<Rightarrow> regslist \<Rightarrow> string list \<Rightarrow> state \<Rightarrow> result" where
  "proclines far RegsList [] st = Inr ([], st)"
| "proclines far RegsList (line # rest) st =
     (case procline far RegsList line st of
        Inl e \<Rightarrow> Inl e
      | Inr (out, st') \<Rightarrow>
          (case proclines far RegsList rest st' of
             Inl e \<Rightarrow> Inl e
           | Inr (out', st'') \<Rightarrow> Inr (out @ out', st'')))"

text \<open>What a call printed, or the exception it raised.\<close>

definition printed :: "result \<Rightarrow> error + string list" where
  "printed r = (case r of Inl e \<Rightarrow> Inl e | Inr (out, st) \<Rightarrow> Inr out)"

section \<open>The fragments as the specification describes them\<close>

text \<open>
  The specification's account of the output of a display strategy, to be compared with
  \<open>display_out\<close>: the changed bits that no field of the table covers, the fragments of the
  fields that changed in table order, and the one fragment labelled \<open>?\<close> for the unnamed
  bits, with their positions (offset by 32 times the watch position) and the current
  value restricted to them.
\<close>

definition spec_unnamedbits :: "memDisplay \<Rightarrow> int \<Rightarrow> int" where
  "spec_unnamedbits self changed =
     changed AND NOT (foldr (\<lambda>(bits, desc) acc. bits OR acc) (md_bitdefs self) 0)"

definition spec_named_fragments :: "memDisplay \<Rightarrow> int \<Rightarrow> int \<Rightarrow> bool \<Rightarrow> string" where
  "spec_named_fragments self val changed notfirst =
     concat (map (\<lambda>(bits, desc). getValue self desc bits val changed notfirst)
                 (filter (\<lambda>(bits, desc). bits AND changed \<noteq> 0) (md_bitdefs self)))"

definition spec_unnamed_fragment :: "memDisplay \<Rightarrow> int \<Rightarrow> int \<Rightarrow> bool \<Rightarrow> string" where
  "spec_unnamed_fragment self val unnamedbits notfirst =
     (if unnamedbits = 0 then []
      else '' ?'' @
           (if notfirst
            then ''('' @ join_sp (map (\<lambda>i. fmt_d (md_pos self * 32 + int i))
                                     (filter (bit unnamedbits) [0 ..< 32])) @ '')''
            else []) @
           ''='' @ fmt_x (val AND unnamedbits))"

section \<open>Properties of the pre-processing\<close>

lemma parsebits_nth:
  "parsebits defs = Inr out \<Longrightarrow>
   length out = length defs \<and>
   (\<forall>i < length defs. desc_mask (fst (defs ! i)) = Inr (fst (out ! i)) \<and> snd (out ! i) = snd (defs ! i))"
proof (induction defs arbitrary: out)
  case Nil
  then show ?case by simp
next
  case (Cons d defs)
  obtain desc val where d: "d = (desc, val)" by (cases d)
  from Cons.prems d obtain msk out' where
    m: "desc_mask desc = Inr msk" and p: "parsebits defs = Inr out'" and o: "out = (msk, val) # out'"
    by (auto split: sum.splits)
  from Cons.IH [OF p] have len: "length out' = length defs"
    and nth: "\<And>i. i < length defs \<Longrightarrow>
           desc_mask (fst (defs ! i)) = Inr (fst (out' ! i)) \<and> snd (out' ! i) = snd (defs ! i)"
    by auto
  show ?case
  proof (intro conjI allI impI)
    show "length out = length (d # defs)" using len o by simp
  next
    fix i assume "i < length (d # defs)"
    then show "desc_mask (fst ((d # defs) ! i)) = Inr (fst (out ! i))"
      using m d o nth by (cases i) auto
  next
    fix i assume "i < length (d # defs)"
    then show "snd (out ! i) = snd ((d # defs) ! i)"
      using m d o nth by (cases i) auto
  qed
qed

lemma shl1_bit: "shl1 b = Inr sh \<Longrightarrow> 0 \<le> b \<and> (\<forall>n. bit sh n \<longleftrightarrow> int n = b)"
  by (auto simp: shl1_def bit_exp_iff split: if_splits)

lemma bits_mask_bit:
  "bits_mask acc bits = Inr m \<Longrightarrow>
   (\<forall>b \<in> set bits. 0 \<le> b) \<and> (\<forall>n. bit m n \<longleftrightarrow> bit acc n \<or> int n \<in> set bits)"
proof (induction bits arbitrary: acc)
  case Nil
  then show ?case by simp
next
  case (Cons b bits)
  from Cons.prems obtain sh where sh: "shl1 b = Inr sh" and r: "bits_mask (acc OR sh) bits = Inr m"
    by (auto split: sum.splits)
  from shl1_bit [OF sh] Cons.IH [OF r] show ?case
    by (auto simp: bit_or_iff)
qed

lemma bits_mask_zero:
  assumes "bits_mask 0 bits = Inr m"
  shows "m = 0 \<longleftrightarrow> bits = []"
proof
  assume "m = 0"
  with bits_mask_bit [OF assms] have nn: "\<forall>b \<in> set bits. 0 \<le> b" and none: "\<forall>n. int n \<notin> set bits"
    by auto
  show "bits = []"
  proof (rule ccontr)
    assume "bits \<noteq> []"
    then obtain b where b: "b \<in> set bits" by (cases bits) auto
    with nn have "int (nat b) = b" by simp
    with b none show False by metis
  qed
next
  assume "bits = []"
  with assms show "m = 0" by simp
qed


lemma split1_hyphen:
  "CHR ''-'' \<notin> set first \<Longrightarrow> split1 (CHR ''-'') (first @ CHR ''-'' # second) = [first, second]"
proof -
  assume a: "CHR ''-'' \<notin> set first"
  have t: "takeWhile (\<lambda>x. x \<noteq> CHR ''-'') first = first"
    using a by (auto simp: takeWhile_eq_all_conv)
  have d: "dropWhile (\<lambda>x. x \<noteq> CHR ''-'') first = []"
    using a by auto
  show ?thesis
    by (simp add: split1_def takeWhile_tail dropWhile_append3 t d)
qed



lemma split1_cases:
  "split1 c tok = [tok] \<and> c \<notin> set tok \<or>
   (\<exists>first second. split1 c tok = [first, second] \<and> tok = first @ [c] @ second \<and> c \<notin> set first)"
proof (cases "c \<in> set tok")
  case False
  then show ?thesis by (simp add: split1_def)
next
  case True
  let ?f = "takeWhile (\<lambda>x. x \<noteq> c) tok" and ?d = "dropWhile (\<lambda>x. x \<noteq> c) tok"
  from True have "?d \<noteq> []" by auto
  moreover have "hd ?d = c" using hd_dropWhile [OF \<open>?d \<noteq> []\<close>] by simp
  ultimately have d: "?d = c # tl ?d" by (cases ?d) auto
  have "tok = ?f @ ?d" by simp
  with d have "tok = ?f @ [c] @ tl ?d" by simp
  moreover have "c \<notin> set ?f" by (auto dest: set_takeWhileD)
  ultimately show ?thesis using True by (auto simp: split1_def)
qed

lemma token_bits_empty:
  "token_bits tok = Inr [] \<Longrightarrow>
   \<exists>first second a b. tok = first @ ''-'' @ second \<and> CHR ''-'' \<notin> set first \<and>
      py_int 10 first = Some a \<and> py_int 10 second = Some b \<and> a < b"
  using split1_cases [of "CHR ''-''" tok]
  by (auto simp: token_bits_def range_down_def split: option.splits) blast+


lemma token_bits_range:
  "CHR ''-'' \<notin> set first \<Longrightarrow> py_int 10 first = Some a \<Longrightarrow> py_int 10 second = Some b \<Longrightarrow>
   token_bits (first @ CHR ''-'' # second) = Inr (rev [b..a])"
  by (simp add: token_bits_def split1_hyphen range_down_def)

lemma tokens_bits_Nil:
  "tokens_bits ts = Inr bits \<Longrightarrow> (bits = []) = (\<forall>t \<in> set ts. token_bits t = Inr [])"
  by (induction ts arbitrary: bits) (auto split: sum.splits)

lemma token_bits_empty_iff:
  "(token_bits tok = Inr []) =
   (\<exists>first second a b. tok = first @ ''-'' @ second \<and> CHR ''-'' \<notin> set first \<and>
      py_int 10 first = Some a \<and> py_int 10 second = Some b \<and> a < b)"
  using token_bits_empty [of tok] by (auto simp: token_bits_range)

lemma desc_mask_BitNum: "desc_mask (BitNum b) = (if b < 0 then Inl ValueError else Inr (2 ^ nat b))"
  by (simp add: desc_mask_def shl1_def)

lemma desc_mask_BitStr:
  assumes "desc_mask (BitStr s) = Inr m"
  obtains bits where "tokens_bits (split_on (CHR '','') s) = Inr bits" and "bits_mask 0 bits = Inr m"
  using assms by (auto simp: desc_mask_def split: sum.splits)

text \<open>
  Claim C3, as amended.  A description that \<open>parsebits\<close> accepts has mask 0 exactly when
  it is a string whose every comma separated piece is a range \<open>first-second\<close> with
  \<open>int(first) < int(second)\<close> (such a range is empty); the mask of an integer description
  and of any string with a single bit or a range with \<open>int(first) \<ge> int(second)\<close> is
  not 0.
\<close>

theorem mask_zero_iff_empty_ranges:
  assumes "parsebits defs = Inr out" and "i < length defs"
  shows "(fst (out ! i) = 0) =
         (case fst (defs ! i) of
            BitNum b \<Rightarrow> False
          | BitStr s \<Rightarrow>
              (\<forall>tok \<in> set (split_on (CHR '','') s).
                 \<exists>first second a b. tok = first @ ''-'' @ second \<and> CHR ''-'' \<notin> set first \<and>
                    py_int 10 first = Some a \<and> py_int 10 second = Some b \<and> a < b))"
proof -
  from parsebits_nth [OF assms(1)] assms(2)
  have dm: "desc_mask (fst (defs ! i)) = Inr (fst (out ! i))" by simp
  show ?thesis
  proof (cases "fst (defs ! i)")
    case (BitNum b)
    with dm show ?thesis by (auto simp: desc_mask_BitNum split: if_splits)
  next
    case (BitStr s)
    with dm obtain bits where tb: "tokens_bits (split_on (CHR '','') s) = Inr bits"
      and bm: "bits_mask 0 bits = Inr (fst (out ! i))"
      by (auto elim: desc_mask_BitStr)
    have "(fst (out ! i) = 0) = (bits = [])" by (rule bits_mask_zero [OF bm])
    also have "\<dots> = (\<forall>t \<in> set (split_on (CHR '','') s). token_bits t = Inr [])"
      by (rule tokens_bits_Nil [OF tb])
    finally show ?thesis using BitStr by (simp only: token_bits_empty_iff bitdesc.case)
  qed
qed

text \<open>
  Claim C3 as stated fails: the description \<open>"3-5"\<close> is accepted, and its range
  \<open>range(3, 4, -1)\<close> is empty, so the mask is 0.
\<close>

theorem parsebits_zero_mask_counterexample:
  "parsebits [(BitStr ''3-5'', ''X'')] = Inr [(0, ''X'')]"
  by code_simp

theorem mask_zero_iff_empty_ranges_witness:
  "parsebits [(BitStr ''3-5'', ''X''), (BitNum 5, ''Y'')] = Inr [(0, ''X''), (32, ''Y'')] \<and>
   (1::nat) < length [(BitStr ''3-5'', ''X''), (BitNum 5, ''Y'')] \<and>
   (fst ([(0::int, ''X''), (32, ''Y'')] ! 1) = 0) = False"
proof -
  have h1: "parsebits [(BitStr ''3-5'', ''X''), (BitNum 5, ''Y'')] = Inr [(0, ''X''), (32, ''Y'')]"
    by code_simp
  have h2: "(1::nat) < length [(BitStr ''3-5'', ''X''), (BitNum 5, ''Y'')]" by simp
  from mask_zero_iff_empty_ranges [OF h1 h2] h1 h2 show ?thesis by simp
qed



section \<open>Properties of the memory display\<close>

lemma getClock_no_clock:
  "group_int 10 m ''time'' = Inr t \<Longrightarrow> fmt_07_3f far t = Inr ts \<Longrightarrow> group m ''clock'' = None \<Longrightarrow>
   getClock far m st = Inr (ts, st)"
  by (simp add: getClock_def)

lemma getClock_clock:
  "group_int 10 m ''time'' = Inr t \<Longrightarrow> fmt_07_3f far t = Inr ts \<Longrightarrow>
   group m ''clock'' = Some cs \<Longrightarrow> py_int 16 cs = Some clock \<Longrightarrow>
   getClock far m st =
     Inr (ts @ ''('' @ fmt_07d (clock - LastClock st) @ '')'', st\<lparr>LastClock := clock\<rparr>)"
  by (simp add: getClock_def)

lemma getClock_raises:
  "group_int 10 m ''time'' = Inr t \<Longrightarrow> fmt_07_3f far t = Inl e \<Longrightarrow> getClock far m st = Inl e"
  by (simp add: getClock_def)

lemma fmt_07_3f_near:
  "0 \<le> t \<Longrightarrow> t < 2 ^ 42 * 1000 \<Longrightarrow>
   fmt_07_3f far t =
     Inr (zero_pad 7 False
            (dec_str (nat t div 1000) @ ''.'' @
             [digit_char (nat t div 100 mod 10), digit_char (nat t div 10 mod 10),
              digit_char (nat t mod 10)]))"
  by (simp add: fmt_07_3f_def Let_def)

text \<open>
  Claim C5.  The time string of \<open>getClock\<close> is \<open>"%07.3f" % (int(time) / 1000.0)\<close>, which
  for a time below \<open>2 ^ 42 * 1000\<close> ms is the seconds with three decimals, filled with
  zeros to 7 columns.  Without a clock group the result is that string and the state is
  unchanged; with one, parsed as hex, the result is \<open><time>(<delta>)\<close> with
  \<open>delta = clock - LastClock\<close> rendered as \<open>%07d\<close> (its sign included), and \<open>LastClock\<close>
  becomes the clock; when the time expression raises, so does \<open>getClock\<close>.  After a
  begin line the clocks 0x100, 0x105, 0x10A give the deltas 0x100, 5 and 5.
\<close>

theorem getClock_renders:
  "(group_int 10 m ''time'' = Inr t \<and> fmt_07_3f far t = Inr ts \<and> group m ''clock'' = None \<longrightarrow>
      getClock far m st = Inr (ts, st)) \<and>
   (group_int 10 m ''time'' = Inr t \<and> fmt_07_3f far t = Inr ts \<and>
    group m ''clock'' = Some cs \<and> py_int 16 cs = Some clock \<longrightarrow>
      getClock far m st =
        Inr (ts @ ''('' @ fmt_07d (clock - LastClock st) @ '')'',
             st\<lparr>LastClock := clock\<rparr>)) \<and>
   (group_int 10 m ''time'' = Inr t \<and> fmt_07_3f far t = Inl e \<longrightarrow> getClock far m st = Inl e) \<and>
   (0 \<le> t \<and> t < 2 ^ 42 * 1000 \<longrightarrow>
      fmt_07_3f far t =
        Inr (zero_pad 7 False
               (dec_str (nat t div 1000) @ ''.'' @
                [digit_char (nat t div 100 mod 10), digit_char (nat t div 10 mod 10),
                 digit_char (nat t mod 10)]))) \<and>
   (group_int 10 m1 ''time'' = Inr t1 \<and> fmt_07_3f far t1 = Inr ts1 \<and>
    group m1 ''clock'' = Some ''100'' \<and>
    group_int 10 m2 ''time'' = Inr t2 \<and> fmt_07_3f far t2 = Inr ts2 \<and>
    group m2 ''clock'' = Some ''105'' \<and>
    group_int 10 m3 ''time'' = Inr t3 \<and> fmt_07_3f far t3 = Inr ts3 \<and>
    group m3 ''clock'' = Some ''10a'' \<and>
    handleBegin mb st = Inr (out, s0) \<longrightarrow>
      getClock far m1 s0 = Inr (ts1 @ ''(0000256)'', s0\<lparr>LastClock := 0x100\<rparr>) \<and>
      getClock far m2 (s0\<lparr>LastClock := 0x100\<rparr>) =
        Inr (ts2 @ ''(0000005)'', s0\<lparr>LastClock := 0x105\<rparr>) \<and>
      getClock far m3 (s0\<lparr>LastClock := 0x105\<rparr>) =
        Inr (ts3 @ ''(0000005)'', s0\<lparr>LastClock := 0x10A\<rparr>)) \<and>
   fmt_07_3f far 5 = Inr ''000.005'' \<and> fmt_07_3f far 123456 = Inr ''123.456'' \<and>
   fmt_07d 5 = ''0000005'' \<and> fmt_07d (- 5) = ''-000005''"
proof (intro conjI impI)
  assume "group_int 10 m ''time'' = Inr t \<and> fmt_07_3f far t = Inr ts \<and> group m ''clock'' = None"
  then show "getClock far m st = Inr (ts, st)" by (simp add: getClock_no_clock)
next
  assume "group_int 10 m ''time'' = Inr t \<and> fmt_07_3f far t = Inr ts \<and>
    group m ''clock'' = Some cs \<and> py_int 16 cs = Some clock"
  then show "getClock far m st =
        Inr (ts @ ''('' @ fmt_07d (clock - LastClock st) @ '')'',
             st\<lparr>LastClock := clock\<rparr>)"
    by (simp add: getClock_clock)
next
  assume "group_int 10 m ''time'' = Inr t \<and> fmt_07_3f far t = Inl e"
  then show "getClock far m st = Inl e" by (simp add: getClock_raises)
next
  assume "0 \<le> t \<and> t < 2 ^ 42 * 1000"
  then show "fmt_07_3f far t =
        Inr (zero_pad 7 False
               (dec_str (nat t div 1000) @ ''.'' @
                [digit_char (nat t div 100 mod 10), digit_char (nat t div 10 mod 10),
                 digit_char (nat t mod 10)]))"
    by (simp add: fmt_07_3f_near)
next
  assume a: "group_int 10 m1 ''time'' = Inr t1 \<and> fmt_07_3f far t1 = Inr ts1 \<and>
    group m1 ''clock'' = Some ''100'' \<and>
    group_int 10 m2 ''time'' = Inr t2 \<and> fmt_07_3f far t2 = Inr ts2 \<and>
    group m2 ''clock'' = Some ''105'' \<and>
    group_int 10 m3 ''time'' = Inr t3 \<and> fmt_07_3f far t3 = Inr ts3 \<and>
    group m3 ''clock'' = Some ''10a'' \<and>
    handleBegin mb st = Inr (out, s0)"
  then have l0: "LastClock s0 = 0" by (auto simp: handleBegin_def)
  from a have g1: "group_int 10 m1 ''time'' = Inr t1" "fmt_07_3f far t1 = Inr ts1"
      "group m1 ''clock'' = Some ''100''"
    and g2: "group_int 10 m2 ''time'' = Inr t2" "fmt_07_3f far t2 = Inr ts2"
      "group m2 ''clock'' = Some ''105''"
    and g3: "group_int 10 m3 ''time'' = Inr t3" "fmt_07_3f far t3 = Inr ts3"
      "group m3 ''clock'' = Some ''10a''"
    by blast+
  have p1: "py_int 16 ''100'' = Some 256" by code_simp
  have p2: "py_int 16 ''105'' = Some 261" by code_simp
  have p3: "py_int 16 ''10a'' = Some 266" by code_simp
  have f1: "fmt_07d 256 = ''0000256''" by code_simp
  have f2: "fmt_07d 5 = ''0000005''" by code_simp
  show "getClock far m1 s0 = Inr (ts1 @ ''(0000256)'', s0\<lparr>LastClock := 0x100\<rparr>)"
    unfolding getClock_clock [OF g1 p1] l0 by (simp add: f1)
  show "getClock far m2 (s0\<lparr>LastClock := 0x100\<rparr>) =
        Inr (ts2 @ ''(0000005)'', s0\<lparr>LastClock := 0x105\<rparr>)"
    unfolding getClock_clock [OF g2 p2] by (simp add: f2)
  show "getClock far m3 (s0\<lparr>LastClock := 0x105\<rparr>) =
        Inr (ts3 @ ''(0000005)'', s0\<lparr>LastClock := 0x10A\<rparr>)"
    unfolding getClock_clock [OF g3 p3] by (simp add: f2)
next
  show "fmt_07_3f far 5 = Inr ''000.005''"
    by (simp add: fmt_07_3f_def zero_pad_def dec_str.simps digit_char_def numeral_2_eq_2)
  show "fmt_07_3f far 123456 = Inr ''123.456''"
    by (simp add: fmt_07_3f_def zero_pad_def dec_str.simps digit_char_def)
  show "fmt_07d 5 = ''0000005''" by code_simp
  show "fmt_07d (- 5) = ''-000005''" by code_simp
qed

theorem getClock_renders_witness:
  "let m0 = \<lparr>mstring = ''1: mem V1=3 (1)'',
              spans = [(''changed'', 13, 14), (''val'', 10, 11), (''vaddr'', 7, 9), (''time'', 0, 1)]\<rparr>;
       m1 = \<lparr>mstring = ''1: 100: mem V1=3 (1)'',
              spans = [(''changed'', 18, 19), (''val'', 15, 16), (''vaddr'', 12, 14),
                       (''clock'', 3, 6), (''time'', 0, 1)]\<rparr>;
       m2 = \<lparr>mstring = ''2: 105: mem V1=3 (1)'',
              spans = [(''changed'', 18, 19), (''val'', 15, 16), (''vaddr'', 12, 14),
                       (''clock'', 3, 6), (''time'', 0, 1)]\<rparr>;
       m3 = \<lparr>mstring = ''3: 10a: mem V1=3 (1)'',
              spans = [(''changed'', 18, 19), (''val'', 15, 16), (''vaddr'', 12, 14),
                       (''clock'', 3, 6), (''time'', 0, 1)]\<rparr>;
       mb = \<lparr>mstring = ''Beginning memory tracing.'', spans = []\<rparr>;
       s0 = init_state\<lparr>LastClock := 0, VirtMap := Map.empty\<rparr>
   in re_match re_mem ''1: mem V1=3 (1)'' = Some m0 \<and>
      re_match re_mem ''1: 100: mem V1=3 (1)'' = Some m1 \<and>
      re_match re_mem ''2: 105: mem V1=3 (1)'' = Some m2 \<and>
      re_match re_mem ''3: 10a: mem V1=3 (1)'' = Some m3 \<and>
      re_match re_begin ''Beginning memory tracing.'' = Some mb \<and>
      group_int 10 m0 ''time'' = Inr 1 \<and> group m0 ''clock'' = None \<and>
      group_int 10 m1 ''time'' = Inr 1 \<and> group m1 ''clock'' = Some ''100'' \<and>
      py_int 16 ''100'' = Some 256 \<and>
      group_int 10 m2 ''time'' = Inr 2 \<and> group m2 ''clock'' = Some ''105'' \<and>
      group_int 10 m3 ''time'' = Inr 3 \<and> group m3 ''clock'' = Some ''10a'' \<and>
      (0::int) \<le> 1 \<and> (1::int) < 2 ^ 42 * 1000 \<and>
      fmt_07_3f unused_far 1 = Inr ''000.001'' \<and>
      fmt_07_3f unused_far 2 = Inr ''000.002'' \<and>
      fmt_07_3f unused_far 3 = Inr ''000.003'' \<and>
      fmt_07_3f unused_far (- 1) = Inl OverflowError \<and>
      handleBegin mb init_state = Inr ([''Beginning memory tracing.''], s0) \<and>
      getClock unused_far m0 init_state = Inr (''000.001'', init_state) \<and>
      getClock unused_far m1 init_state =
        Inr (''000.001'' @ ''('' @ fmt_07d (256 - LastClock init_state) @ '')'',
             init_state\<lparr>LastClock := 256\<rparr>) \<and>
      getClock unused_far m1 s0 = Inr (''000.001'' @ ''(0000256)'', s0\<lparr>LastClock := 0x100\<rparr>) \<and>
      getClock unused_far m2 (s0\<lparr>LastClock := 0x100\<rparr>) =
        Inr (''000.002'' @ ''(0000005)'', s0\<lparr>LastClock := 0x105\<rparr>) \<and>
      getClock unused_far m3 (s0\<lparr>LastClock := 0x105\<rparr>) =
        Inr (''000.003'' @ ''(0000005)'', s0\<lparr>LastClock := 0x10A\<rparr>)"
proof -
  define m0 where "m0 = \<lparr>mstring = ''1: mem V1=3 (1)'',
              spans = [(''changed'', 13, 14), (''val'', 10, 11), (''vaddr'', 7, 9), (''time'', 0::nat, 1::nat)]\<rparr>"
  define m1 where "m1 = \<lparr>mstring = ''1: 100: mem V1=3 (1)'',
              spans = [(''changed'', 18, 19), (''val'', 15, 16), (''vaddr'', 12, 14),
                       (''clock'', 3, 6), (''time'', 0::nat, 1::nat)]\<rparr>"
  define m2 where "m2 = \<lparr>mstring = ''2: 105: mem V1=3 (1)'',
              spans = [(''changed'', 18, 19), (''val'', 15, 16), (''vaddr'', 12, 14),
                       (''clock'', 3, 6), (''time'', 0::nat, 1::nat)]\<rparr>"
  define m3 where "m3 = \<lparr>mstring = ''3: 10a: mem V1=3 (1)'',
              spans = [(''changed'', 18, 19), (''val'', 15, 16), (''vaddr'', 12, 14),
                       (''clock'', 3, 6), (''time'', 0::nat, 1::nat)]\<rparr>"
  define mb where "mb = \<lparr>mstring = ''Beginning memory tracing.'', spans = ([] :: caps)\<rparr>"
  define s0 where "s0 = init_state\<lparr>LastClock := 0, VirtMap := Map.empty\<rparr>"
  have r0: "re_match re_mem ''1: mem V1=3 (1)'' = Some m0" unfolding m0_def by code_simp
  have r1: "re_match re_mem ''1: 100: mem V1=3 (1)'' = Some m1" unfolding m1_def by code_simp
  have r2: "re_match re_mem ''2: 105: mem V1=3 (1)'' = Some m2" unfolding m2_def by code_simp
  have r3: "re_match re_mem ''3: 10a: mem V1=3 (1)'' = Some m3" unfolding m3_def by code_simp
  have rb: "re_match re_begin ''Beginning memory tracing.'' = Some mb" unfolding mb_def by code_simp
  have h0: "group_int 10 m0 ''time'' = Inr 1 \<and> group m0 ''clock'' = None"
    unfolding m0_def by code_simp
  have h1: "group_int 10 m1 ''time'' = Inr 1 \<and> group m1 ''clock'' = Some ''100''"
    unfolding m1_def by code_simp
  have p1: "py_int 16 ''100'' = Some 256" by code_simp
  have h2: "group_int 10 m2 ''time'' = Inr 2 \<and> group m2 ''clock'' = Some ''105''"
    unfolding m2_def by code_simp
  have h3: "group_int 10 m3 ''time'' = Inr 3 \<and> group m3 ''clock'' = Some ''10a''"
    unfolding m3_def by code_simp
  have b: "(0::int) \<le> 1 \<and> (1::int) < 2 ^ 42 * 1000" by simp
  have f1: "fmt_07_3f unused_far 1 = Inr ''000.001''" by code_simp
  have f2: "fmt_07_3f unused_far 2 = Inr ''000.002''" by code_simp
  have f3: "fmt_07_3f unused_far 3 = Inr ''000.003''" by code_simp
  have fn: "fmt_07_3f unused_far (- 1) = Inl OverflowError" by code_simp
  have hb: "handleBegin mb init_state = Inr ([''Beginning memory tracing.''], s0)"
    unfolding mb_def s0_def handleBegin_def by simp
  note t = getClock_renders [where far = unused_far and m = m0 and t = 1 and ts = "''000.001''"
      and st = init_state and ?m1.0 = m1 and ?t1.0 = 1 and ?ts1.0 = "''000.001''"
      and ?m2.0 = m2 and ?t2.0 = 2 and ?ts2.0 = "''000.002''"
      and ?m3.0 = m3 and ?t3.0 = 3 and ?ts3.0 = "''000.003''" and mb = mb
      and out = "[''Beginning memory tracing.'']" and ?s0.0 = s0]
  note u = getClock_renders [where far = unused_far and m = m1 and t = 1 and ts = "''000.001''"
      and st = init_state and cs = "''100''" and clock = 256]
  from t h0 f1 have c0: "getClock unused_far m0 init_state = Inr (''000.001'', init_state)"
    by blast
  from u h1 f1 p1 have c1: "getClock unused_far m1 init_state =
        Inr (''000.001'' @ ''('' @ fmt_07d (256 - LastClock init_state) @ '')'',
             init_state\<lparr>LastClock := 256\<rparr>)" by blast
  from t h1 h2 h3 f1 f2 f3 hb
  have c2: "getClock unused_far m1 s0 = Inr (''000.001'' @ ''(0000256)'', s0\<lparr>LastClock := 0x100\<rparr>) \<and>
      getClock unused_far m2 (s0\<lparr>LastClock := 0x100\<rparr>) =
        Inr (''000.002'' @ ''(0000005)'', s0\<lparr>LastClock := 0x105\<rparr>) \<and>
      getClock unused_far m3 (s0\<lparr>LastClock := 0x105\<rparr>) =
        Inr (''000.003'' @ ''(0000005)'', s0\<lparr>LastClock := 0x10A\<rparr>)" by blast
  from r0 r1 r2 r3 rb h0 h1 p1 h2 h3 b f1 f2 f3 fn hb c0 c1 c2 show ?thesis
    unfolding Let_def m0_def [symmetric] m1_def [symmetric] m2_def [symmetric]
      m3_def [symmetric] mb_def [symmetric] s0_def [symmetric]
    by blast
qed

lemma displayFunc_eq:
  assumes "group_int 16 m ''val'' = Inr val" and "group_int 16 m ''changed'' = Inr changed"
    and "getClock far m st = Inr (clk, st')"
  shows "displayFunc far self m st =
         Inr ([clk @ md_type self @ '' '' @ fmt_8s (md_name self) @
               (if changed = 0 then ''='' @ fmt_08x val else []) @ '':'' @
               display_out self val (if changed = 0 then val else changed) (changed \<noteq> 0)], st')"
  using assms by (simp add: displayFunc_def Let_def)

lemma hex_str_length: "n < 16 ^ k \<Longrightarrow> 0 < k \<Longrightarrow> length (hex_str n) \<le> k"
proof (induction n arbitrary: k rule: hex_str.induct)
  case (1 n)
  show ?case
  proof (cases "n < 16")
    case True
    with "1.prems" show ?thesis by (simp add: hex_str.simps)
  next
    case False
    with "1.prems" have k: "1 < k" by (cases "k = 1") auto
    from "1.prems" have "n < 16 * 16 ^ (k - 1)" using k by (cases k) auto
    then have "n div 16 < 16 ^ (k - 1)" by (simp add: less_mult_imp_div_less mult.commute)
    from "1.IH" [OF False this] k have "length (hex_str (n div 16)) \<le> k - 1" by simp
    with False k show ?thesis by (simp add: hex_str.simps [of n])
  qed
qed

lemma fmt_08x_length:
  assumes "0 \<le> val" and "val < 2 ^ 32"
  shows "length (fmt_08x val) = 8"
proof -
  from assms have "nat \<bar>val\<bar> < 16 ^ 8" by simp
  then have "length (hex_str (nat \<bar>val\<bar>)) \<le> 8" by (rule hex_str_length) simp
  with assms show ?thesis by (simp add: fmt_08x_def zero_pad_def)
qed

lemma and_not_or: "(a AND NOT b) AND NOT c = a AND NOT (b OR (c::int))"
  by (simp add: bit_eq_iff bit_and_iff bit_or_iff bit_not_iff)

lemma and_not_miss: "bits AND ch = 0 \<Longrightarrow> ch AND NOT (bits OR x) = ch AND NOT (x::int)"
proof -
  assume "bits AND ch = 0"
  then have "bit (bits AND ch) n = bit (0::int) n" for n by simp
  then have "\<not> (bit bits n \<and> bit ch n)" for n by (simp add: bit_and_iff)
  then show ?thesis by (auto simp: bit_eq_iff bit_and_iff bit_or_iff bit_not_iff)
qed

lemma display_fields_eq:
  "display_fields self val ch nf defs (out, un) =
     (out @ concat (map (\<lambda>(bits, desc). getValue self desc bits val ch nf)
                        (filter (\<lambda>(bits, desc). bits AND ch \<noteq> 0) defs)),
      un AND NOT (foldr (\<lambda>(bits, desc) acc. bits OR acc)
                        (filter (\<lambda>(bits, desc). bits AND ch \<noteq> 0) defs) 0))"
proof (induction defs arbitrary: out un)
  case Nil
  then show ?case by simp
next
  case (Cons d defs)
  obtain bits desc where d: "d = (bits, desc)" by (cases d)
  show ?case unfolding d by (simp add: Cons.IH and_not_or)
qed

lemma unnamed_all_fields:
  "ch AND NOT (foldr (\<lambda>(bits, desc) acc. bits OR acc)
                     (filter (\<lambda>(bits, desc). bits AND ch \<noteq> 0) defs) 0) =
   ch AND NOT (foldr (\<lambda>(bits, desc) acc. bits OR acc) defs (0::int))"
proof (induction defs)
  case Nil
  then show ?case by simp
next
  case (Cons d defs)
  obtain bits desc where d: "d = (bits, desc)" by (cases d)
  let ?F = "foldr (\<lambda>(bits, desc) acc. bits OR acc) defs (0::int)"
  let ?G = "foldr (\<lambda>(bits, desc) acc. bits OR acc)
                  (filter (\<lambda>(bits, desc). bits AND ch \<noteq> 0) defs) (0::int)"
  have ih: "ch AND NOT ?G = ch AND NOT ?F" by (rule Cons.IH)
  have r: "foldr (\<lambda>(bits, desc) acc. bits OR acc) (d # defs) 0 = bits OR ?F"
    unfolding d by simp
  show ?case
  proof (cases "bits AND ch = 0")
    case True
    then have l: "foldr (\<lambda>(bits, desc) acc. bits OR acc)
                    (filter (\<lambda>(bits, desc). bits AND ch \<noteq> 0) (d # defs)) 0 = ?G"
      unfolding d by simp
    show ?thesis unfolding l r and_not_miss [OF True] by (rule ih)
  next
    case False
    then have l: "foldr (\<lambda>(bits, desc) acc. bits OR acc)
                    (filter (\<lambda>(bits, desc). bits AND ch \<noteq> 0) (d # defs)) 0 = bits OR ?G"
      unfolding d by simp
    have c: "ch AND NOT (bits OR X) = (ch AND NOT X) AND NOT bits" for X :: int
      by (rule bit_eqI) (auto simp: bit_and_iff bit_or_iff bit_not_iff)
    show ?thesis unfolding l r c ih ..
  qed
qed

lemma getValue_step_all:
  "getValue_step (NOT 0) v un n (n, take_bit n v, filter (bit un) [0 ..< n]) =
     (Suc n, take_bit (Suc n) v, filter (bit un) [0 ..< Suc n])"
proof -
  have nz: "push_bit n (1::int) AND NOT 0 \<noteq> 0" by simp
  have bv: "(push_bit n (1::int) AND v \<noteq> 0) = bit v n"
    by (simp add: bit_iff_and_push_bit_not_eq_0 and.commute)
  have bu: "(push_bit n (1::int) AND un \<noteq> 0) = bit un n"
    by (simp add: bit_iff_and_push_bit_not_eq_0 and.commute)
  have t1: "bit v n \<Longrightarrow> take_bit n v OR push_bit n 1 = take_bit (Suc n) v"
    by (rule bit_eqI) (auto simp: bit_or_iff bit_take_bit_iff bit_exp_iff less_Suc_eq)
  have t0: "\<not> bit v n \<Longrightarrow> take_bit n v = take_bit (Suc n) v"
    by (rule bit_eqI) (auto simp: bit_take_bit_iff less_Suc_eq)
  show ?thesis
    unfolding getValue_step_def Let_def prod.case
    using nz bv bu t1 t0 by auto
qed

lemma getValue_fold_all:
  "fold (getValue_step (NOT 0) v un) [0 ..< n] (0, 0, []) =
     (n, take_bit n v, filter (bit un) [0 ..< n])"
proof (induction n)
  case 0
  then show ?case by simp
next
  case (Suc n)
  have "fold (getValue_step (NOT 0) v un) [0 ..< Suc n] (0, 0, []) =
        getValue_step (NOT 0) v un n (fold (getValue_step (NOT 0) v un) [0 ..< n] (0, 0, []))"
    by simp
  also have "\<dots> = (Suc n, take_bit (Suc n) v, filter (bit un) [0 ..< Suc n])"
    unfolding Suc.IH by (rule getValue_step_all)
  finally show ?case .
qed

lemma getValue_unnamed:
  "getValue self ''?'' (NOT 0) v un nf =
     '' ?'' @ (if nf then ''('' @ join_sp (map (\<lambda>i. fmt_d (md_pos self * 32 + int i))
                                              (filter (bit un) [0 ..< 32])) @ '')''
               else []) @ ''='' @ fmt_x (take_bit 32 v)"
  unfolding getValue_def getValue_fold_all by (simp add: Let_def)

lemma display_out_eq:
  "display_out self val ch nf =
     (let unnamedbits = ch AND NOT (foldr (\<lambda>(bits, desc) acc. bits OR acc) (md_bitdefs self) 0)
      in concat (map (\<lambda>(bits, desc). getValue self desc bits val ch nf)
                     (filter (\<lambda>(bits, desc). bits AND ch \<noteq> 0) (md_bitdefs self))) @
         (if unnamedbits = 0 then []
          else '' ?'' @ (if nf then ''('' @ join_sp (map (\<lambda>i. fmt_d (md_pos self * 32 + int i))
                                                        (filter (bit unnamedbits) [0 ..< 32])) @ '')''
                         else []) @ ''='' @ fmt_x (take_bit 32 (val AND unnamedbits))))"
  unfolding display_out_def display_fields_eq unnamed_all_fields prod.case Let_def
    getValue_unnamed
  by simp

lemma uint32_and:
  assumes "0 \<le> (a::int)" and "a < 2 ^ 32"
  shows "0 \<le> a AND b" and "a AND b < 2 ^ 32" and "take_bit 32 (a AND b) = a AND b"
    and "bit (a AND b) i \<Longrightarrow> i < 32"
proof -
  show n: "0 \<le> a AND b" using assms by simp
  have "a AND b \<le> a" using assms by (simp add: AND_upper1)
  with assms show u: "a AND b < 2 ^ 32" by simp
  from n u show t: "take_bit 32 (a AND b) = a AND b" by (rule take_bit_int_eq_self)
  assume "bit (a AND b) i"
  then have "bit (take_bit 32 (a AND b)) i" by (simp only: t)
  then show "i < 32" unfolding bit_take_bit_iff by simp
qed

text \<open>
  Claim C1, as amended.  The line a display strategy prints is the clock rendering, the
  watch type, a space and the register name right-justified to 8 characters; when the
  parsed changed mask is zero (the first occurrence) \<open>=\<close> and the current value as 8 hex
  digits follow; when it is not zero nothing follows the name; then come \<open>:\<close> and the
  fragments.
\<close>

theorem displayFunc_value_on_first:
  assumes "group_int 16 m ''val'' = Inr val" and "group_int 16 m ''changed'' = Inr changed"
    and "getClock far m st = Inr (clk, st')"
  shows "displayFunc far self m st =
           Inr ([clk @ md_type self @ '' '' @ fmt_8s (md_name self) @
                 (if changed = 0 then ''='' @ fmt_08x val else []) @ '':'' @
                 display_out self val (if changed = 0 then val else changed) (changed \<noteq> 0)], st') \<and>
         fmt_8s (md_name self) = replicate (8 - length (md_name self)) (CHR '' '') @ md_name self \<and>
         (0 \<le> val \<and> val < 2 ^ 32 \<longrightarrow> length (fmt_08x val) = 8)"
  using displayFunc_eq [OF assms] by (simp add: fmt_8s_def fmt_08x_length)

text \<open>
  Claim C1 as stated fails: the line of the first occurrence (changed mask 0) carries
  \<open>=00000003\<close>, the line of a later event (changed mask 1) carries no value.
\<close>

theorem displayFunc_value_counterexample:
  "printed (proclines unused_far [''board'' \<mapsto> [0x1000 \<mapsto> Tuple2 ''CTRL'' [(1, ''EN''), (2, ''RUN'')]]]
      [''Detected machine board/armv5 (Plat=0x1)'', ''Watching REG(0): Addr V1(@1000)'',
       ''5: mem V1=3 (0)'', ''6: mem V1=3 (1)''] init_state) =
   Inr [''Detected machine board/armv5 (Plat=0x1)'', ''Watching REG(0): Addr V1(@1000)'',
        ''000.005 REG     CTRL=00000003: EN=1 RUN=1'', ''000.006 REG     CTRL: EN(0)=1'']"
  by code_simp

text \<open>
  Claim C6.  For a 32-bit value and changed mask, the output of a display strategy is the
  fragments of the declared fields that changed, in table order, followed by exactly one
  fragment labelled \<open>?\<close> when some changed bit is covered by no declared field, and by
  nothing otherwise.  The positions that fragment reports are exactly the unnamed changed
  bits and its value is the current value restricted to them.
\<close>

theorem unnamed_bits_fragment:
  assumes "0 \<le> val" and "val < 2 ^ 32" and "0 \<le> changed0" and "changed0 < 2 ^ 32"
    and "group_int 16 m ''val'' = Inr val" and "group_int 16 m ''changed'' = Inr changed0"
    and "getClock far m st = Inr (clk, st')"
    and "changed = (if changed0 = 0 then val else changed0)"
    and "unnamedbits = spec_unnamedbits self changed"
  shows "display_out self val changed (changed0 \<noteq> 0) =
           spec_named_fragments self val changed (changed0 \<noteq> 0) @
           spec_unnamed_fragment self val unnamedbits (changed0 \<noteq> 0) \<and>
         displayFunc far self m st =
           Inr ([clk @ md_type self @ '' '' @ fmt_8s (md_name self) @
                 (if changed0 = 0 then ''='' @ fmt_08x val else []) @ '':'' @
                 spec_named_fragments self val changed (changed0 \<noteq> 0) @
                 spec_unnamed_fragment self val unnamedbits (changed0 \<noteq> 0)], st') \<and>
         (\<forall>i. bit unnamedbits i \<longrightarrow> i < 32) \<and>
         set (filter (bit unnamedbits) [0 ..< 32]) = {i. bit unnamedbits i}"
proof -
  have c: "0 \<le> changed" "changed < 2 ^ 32" using assms(1-4,8) by auto
  have lt: "bit unnamedbits i \<Longrightarrow> i < 32" for i
    unfolding assms(9) spec_unnamedbits_def by (rule uint32_and(4) [OF c])
  have tb: "take_bit 32 (val AND unnamedbits) = val AND unnamedbits"
    by (rule uint32_and(3) [OF assms(1,2)])
  have st: "set (filter (bit unnamedbits) [0 ..< 32]) = {i. bit unnamedbits i}"
    using lt by auto
  have d: "display_out self val changed (changed0 \<noteq> 0) =
           spec_named_fragments self val changed (changed0 \<noteq> 0) @
           spec_unnamed_fragment self val unnamedbits (changed0 \<noteq> 0)"
    unfolding display_out_eq Let_def spec_named_fragments_def spec_unnamed_fragment_def
      assms(9) [unfolded spec_unnamedbits_def, symmetric] tb ..
  have f: "displayFunc far self m st =
         Inr ([clk @ md_type self @ '' '' @ fmt_8s (md_name self) @
               (if changed0 = 0 then ''='' @ fmt_08x val else []) @ '':'' @
               display_out self val changed (changed0 \<noteq> 0)], st')"
    unfolding assms(8) by (rule displayFunc_eq [OF assms(5-7)])
  from d f lt st show ?thesis by simp
qed


theorem displayFunc_value_on_first_witness:
  "let self = \<lparr>md_type = '' REG'', md_pos = 0, md_name = ''CTRL'',
                md_bitdefs = [(1, ''EN''), (2, ''RUN'')]\<rparr>;
       m0 = \<lparr>mstring = ''5: mem V1=3 (0)'',
              spans = [(''changed'', 13, 14), (''val'', 10, 11), (''vaddr'', 7, 9), (''time'', 0, 1)]\<rparr>;
       m1 = \<lparr>mstring = ''6: mem V1=3 (1)'',
              spans = [(''changed'', 13, 14), (''val'', 10, 11), (''vaddr'', 7, 9), (''time'', 0, 1)]\<rparr>
   in re_match re_mem ''5: mem V1=3 (0)'' = Some m0 \<and>
      re_match re_mem ''6: mem V1=3 (1)'' = Some m1 \<and>
      group_int 16 m0 ''val'' = Inr 3 \<and> group_int 16 m0 ''changed'' = Inr 0 \<and>
      getClock unused_far m0 init_state = Inr (''000.005'', init_state) \<and>
      group_int 16 m1 ''val'' = Inr 3 \<and> group_int 16 m1 ''changed'' = Inr 1 \<and>
      getClock unused_far m1 init_state = Inr (''000.006'', init_state) \<and>
      displayFunc unused_far self m0 init_state =
        Inr ([''000.005 REG     CTRL=00000003: EN=1 RUN=1''], init_state) \<and>
      displayFunc unused_far self m1 init_state = Inr ([''000.006 REG     CTRL: EN(0)=1''], init_state)"
proof -
  define self where "self = \<lparr>md_type = '' REG'', md_pos = 0, md_name = ''CTRL'',
                md_bitdefs = [(1::int, ''EN''), (2, ''RUN'')]\<rparr>"
  define m0 where "m0 = \<lparr>mstring = ''5: mem V1=3 (0)'',
              spans = [(''changed'', 13, 14), (''val'', 10, 11), (''vaddr'', 7, 9), (''time'', 0::nat, 1::nat)]\<rparr>"
  define m1 where "m1 = \<lparr>mstring = ''6: mem V1=3 (1)'',
              spans = [(''changed'', 13, 14), (''val'', 10, 11), (''vaddr'', 7, 9), (''time'', 0::nat, 1::nat)]\<rparr>"
  have r0: "re_match re_mem ''5: mem V1=3 (0)'' = Some m0" unfolding m0_def by code_simp
  have r1: "re_match re_mem ''6: mem V1=3 (1)'' = Some m1" unfolding m1_def by code_simp
  have v0: "group_int 16 m0 ''val'' = Inr 3" unfolding m0_def by code_simp
  have c0: "group_int 16 m0 ''changed'' = Inr 0" unfolding m0_def by code_simp
  have v1: "group_int 16 m1 ''val'' = Inr 3" unfolding m1_def by code_simp
  have c1: "group_int 16 m1 ''changed'' = Inr 1" unfolding m1_def by code_simp
  have t0: "group_int 10 m0 ''time'' = Inr 5" "group m0 ''clock'' = None"
    unfolding m0_def by code_simp+
  have t1: "group_int 10 m1 ''time'' = Inr 6" "group m1 ''clock'' = None"
    unfolding m1_def by code_simp+
  have f5: "fmt_07_3f unused_far 5 = Inr ''000.005''" by code_simp
  have f6: "fmt_07_3f unused_far 6 = Inr ''000.006''" by code_simp
  have g0: "getClock unused_far m0 init_state = Inr (''000.005'', init_state)"
    by (rule getClock_no_clock [OF t0(1) f5 t0(2)])
  have g1: "getClock unused_far m1 init_state = Inr (''000.006'', init_state)"
    by (rule getClock_no_clock [OF t1(1) f6 t1(2)])
  have e0: "''000.005'' @ md_type self @ '' '' @ fmt_8s (md_name self) @
              (if (0::int) = 0 then ''='' @ fmt_08x 3 else []) @ '':'' @
              display_out self 3 (if (0::int) = 0 then 3 else 0) ((0::int) \<noteq> 0) =
            ''000.005 REG     CTRL=00000003: EN=1 RUN=1''"
    unfolding self_def by code_simp
  have e1: "''000.006'' @ md_type self @ '' '' @ fmt_8s (md_name self) @
              (if (1::int) = 0 then ''='' @ fmt_08x 3 else []) @ '':'' @
              display_out self 3 (if (1::int) = 0 then 3 else 1) ((1::int) \<noteq> 0) =
            ''000.006 REG     CTRL: EN(0)=1''"
    unfolding self_def by code_simp
  from displayFunc_value_on_first [OF v0 c0 g0, of self]
  have d0: "displayFunc unused_far self m0 init_state =
        Inr ([''000.005 REG     CTRL=00000003: EN=1 RUN=1''], init_state)"
    unfolding e0 by (rule conjunct1)
  from displayFunc_value_on_first [OF v1 c1 g1, of self]
  have d1: "displayFunc unused_far self m1 init_state = Inr ([''000.006 REG     CTRL: EN(0)=1''], init_state)"
    unfolding e1 by (rule conjunct1)
  from r0 r1 v0 c0 g0 v1 c1 g1 d0 d1 show ?thesis
    unfolding Let_def self_def [symmetric] m0_def [symmetric] m1_def [symmetric] by blast
qed

theorem unnamed_bits_fragment_witness:
  "let self = \<lparr>md_type = '' REG'', md_pos = 0, md_name = ''CTRL'',
                md_bitdefs = [(1, ''EN''), (2, ''RUN'')]\<rparr>;
       m = \<lparr>mstring = ''7: mem V1=7 (5)'',
             spans = [(''changed'', 13, 14), (''val'', 10, 11), (''vaddr'', 7, 9), (''time'', 0, 1)]\<rparr>
   in re_match re_mem ''7: mem V1=7 (5)'' = Some m \<and>
      (0::int) \<le> 7 \<and> (7::int) < 2 ^ 32 \<and> (0::int) \<le> 5 \<and> (5::int) < 2 ^ 32 \<and>
      group_int 16 m ''val'' = Inr 7 \<and> group_int 16 m ''changed'' = Inr 5 \<and>
      getClock unused_far m init_state = Inr (''000.007'', init_state) \<and>
      spec_unnamedbits self 5 = 4 \<and>
      spec_named_fragments self 7 5 True = '' EN(0)=1'' \<and>
      spec_unnamed_fragment self 7 4 True = '' ?(2)=4'' \<and>
      display_out self 7 5 True = '' EN(0)=1 ?(2)=4'' \<and>
      displayFunc unused_far self m init_state = Inr ([''000.007 REG     CTRL: EN(0)=1 ?(2)=4''], init_state) \<and>
      set (filter (bit (4::int)) [0 ..< 32]) = {i. bit (4::int) i}"
proof -
  define self where "self = \<lparr>md_type = '' REG'', md_pos = 0, md_name = ''CTRL'',
                md_bitdefs = [(1::int, ''EN''), (2, ''RUN'')]\<rparr>"
  define m where "m = \<lparr>mstring = ''7: mem V1=7 (5)'',
             spans = [(''changed'', 13, 14), (''val'', 10, 11), (''vaddr'', 7, 9), (''time'', 0::nat, 1::nat)]\<rparr>"
  have r: "re_match re_mem ''7: mem V1=7 (5)'' = Some m" unfolding m_def by code_simp
  have b: "(0::int) \<le> 7" "(7::int) < 2 ^ 32" "(0::int) \<le> 5" "(5::int) < 2 ^ 32" by simp_all
  have v: "group_int 16 m ''val'' = Inr 7" unfolding m_def by code_simp
  have c: "group_int 16 m ''changed'' = Inr 5" unfolding m_def by code_simp
  have t: "group_int 10 m ''time'' = Inr 7" "group m ''clock'' = None"
    unfolding m_def by code_simp+
  have f7: "fmt_07_3f unused_far 7 = Inr ''000.007''" by code_simp
  have g: "getClock unused_far m init_state = Inr (''000.007'', init_state)"
    by (rule getClock_no_clock [OF t(1) f7 t(2)])
  have ch: "(5::int) = (if (5::int) = 0 then 7 else 5)" by simp
  have u: "(4::int) = spec_unnamedbits self 5" unfolding self_def by code_simp
  have n: "spec_named_fragments self 7 5 True = '' EN(0)=1''" unfolding self_def by code_simp
  have q: "spec_unnamed_fragment self 7 4 True = '' ?(2)=4''" unfolding self_def by code_simp
  have e: "''000.007'' @ md_type self @ '' '' @ fmt_8s (md_name self) @
             (if (5::int) = 0 then ''='' @ fmt_08x 7 else []) @ '':'' @
             '' EN(0)=1'' @ '' ?(2)=4'' = ''000.007 REG     CTRL: EN(0)=1 ?(2)=4''"
    unfolding self_def by code_simp
  have tr: "((5::int) \<noteq> 0) = True" by simp
  note w = unnamed_bits_fragment [OF b v c g ch u, unfolded tr n q e]
  from w have d: "display_out self 7 5 True = '' EN(0)=1 ?(2)=4''" by simp
  from w have f: "displayFunc unused_far self m init_state =
      Inr ([''000.007 REG     CTRL: EN(0)=1 ?(2)=4''], init_state)" by blast
  from w have s: "set (filter (bit (4::int)) [0 ..< 32]) = {i. bit (4::int) i}" by blast
  from r b v c g u n q d f s show ?thesis
    unfolding Let_def self_def [symmetric] m_def [symmetric] by simp
qed

section \<open>Properties of the parsing\<close>

lemma re_match_mstring: "re_match x s = Some m \<Longrightarrow> mstring m = s"
  by (auto simp: re_match_def split: list.splits)

lemma rmatch_lit_prefix:
  "take (length l) s \<noteq> l \<Longrightarrow> rmatch (cat (Bol # Lit l # xs)) (0, s, g) = []"
  by (simp add: cat_def)

lemma rmatch_plus_prefix:
  "takeWhile (in_class k) s = [] \<Longrightarrow> rmatch (cat (Bol # Group n (Plus k) # xs)) (0, s, g) = []"
  by (simp add: cat_def)

lemma re_mem_digit:
  assumes "re_match re_mem s = Some m"
  shows "s \<noteq> [] \<and> in_class Digit (hd s)"
proof (rule ccontr)
  assume "\<not> (s \<noteq> [] \<and> in_class Digit (hd s))"
  then have "takeWhile (in_class Digit) s = []" by (cases s) auto
  then have e: "rmatch (cat (Bol # Group ''time'' (Plus Digit) # xs)) (0, s, g) = []" for xs g
    by (rule rmatch_plus_prefix)
  have "re_match re_mem s = None"
    unfolding re_match_def re_mem_def TIMEPRE_S_def append.simps e by simp
  with assms show False by simp
qed

lemma re_watch_prefix:
  assumes "re_match re_watch s = Some m"
  shows "take 9 s = ''Watching ''"
proof (rule ccontr)
  have l: "length ''Watching '' = 9" by simp
  assume "take 9 s \<noteq> ''Watching ''"
  then have "take (length ''Watching '') s \<noteq> ''Watching ''" unfolding l .
  then have e: "rmatch (cat (Bol # Lit ''Watching '' # xs)) (0, s, g) = []" for xs g
    by (rule rmatch_lit_prefix)
  have "re_match re_watch s = None"
    unfolding re_match_def re_watch_def e by simp
  with assms show False by simp
qed

lemma re_detect_prefix:
  assumes "re_match re_detect s = Some m"
  shows "take 17 s = ''Detected machine ''"
proof (rule ccontr)
  have l: "length ''Detected machine '' = 17" by simp
  assume "take 17 s \<noteq> ''Detected machine ''"
  then have "take (length ''Detected machine '') s \<noteq> ''Detected machine ''" unfolding l .
  then have e: "rmatch (cat (Bol # Lit ''Detected machine '' # xs)) (0, s, g) = []" for xs g
    by (rule rmatch_lit_prefix)
  have "re_match re_detect s = None"
    unfolding re_match_def re_detect_def e by simp
  with assms show False by simp
qed

lemma rmatch_lit_eol:
  "rmatch (cat [Bol, Lit l, Eol]) (0, s, []) =
     (if s = l \<or> s = l @ [CHR 0x0A] then [(length l, drop (length l) s, [])] else [])"
proof -
  have a: "(take (length l) s = l \<and> drop (length l) s = d) = (s = l @ d)" for d
    by (metis append_eq_conv_conj)
  have b: "(take (length l) s = l \<and> (drop (length l) s = [] \<or> drop (length l) s = [CHR 0x0A])) =
           (s = l \<or> s = l @ [CHR 0x0A])"
    using a [of "[]"] a [of "[CHR 0x0A]"] by auto
  have "rmatch (cat [Bol, Lit l, Eol]) (0, s, []) =
        (if take (length l) s = l \<and> (drop (length l) s = [] \<or> drop (length l) s = [CHR 0x0A])
         then [(length l, drop (length l) s, [])] else [])"
    by (simp add: cat_def)
  then show ?thesis unfolding b .
qed

lemma re_begin_iff:
  "(re_match re_begin s = Some m) =
   (m = \<lparr>mstring = s, spans = []\<rparr> \<and>
    (s = ''Beginning memory tracing.'' \<or> s = ''Beginning memory tracing.'' @ [CHR 0x0A]))"
  unfolding re_match_def re_begin_def rmatch_lit_eol by auto



lemma re_watch_hd: "re_match re_watch s = Some m \<Longrightarrow> s \<noteq> [] \<and> hd s = CHR ''W''"
proof -
  assume "re_match re_watch s = Some m"
  then have "take 9 s = ''Watching ''" by (rule re_watch_prefix)
  then show ?thesis by (cases s) auto
qed

lemma re_detect_hd: "re_match re_detect s = Some m \<Longrightarrow> s \<noteq> [] \<and> hd s = CHR ''D''"
proof -
  assume "re_match re_detect s = Some m"
  then have "take 17 s = ''Detected machine ''" by (rule re_detect_prefix)
  then show ?thesis by (cases s) auto
qed

lemma re_begin_hd: "re_match re_begin s = Some m \<Longrightarrow> s \<noteq> [] \<and> hd s = CHR ''B''"
proof -
  assume "re_match re_begin s = Some m"
  then have "s = ''Beginning memory tracing.'' \<or> s = ''Beginning memory tracing.'' @ [CHR 0x0A]"
    by (simp only: re_begin_iff)
  then show ?thesis by (cases s) auto
qed

lemma not_digit_no_mem: "s \<noteq> [] \<Longrightarrow> \<not> in_class Digit (hd s) \<Longrightarrow> re_match re_mem s = None"
  using re_mem_digit [of s] by (cases "re_match re_mem s") auto

lemma digit_W: "\<not> in_class Digit (CHR ''W'')" by (simp add: in_class_def)
lemma digit_B: "\<not> in_class Digit (CHR ''B'')" by (simp add: in_class_def)
lemma digit_D: "\<not> in_class Digit (CHR ''D'')" by (simp add: in_class_def)

lemma re_watch_not_mem: "re_match re_watch s = Some m \<Longrightarrow> re_match re_mem s = None"
  using re_watch_hd [of s m] digit_W by (simp add: not_digit_no_mem)

lemma re_begin_not_mem: "re_match re_begin s = Some m \<Longrightarrow> re_match re_mem s = None"
  using re_begin_hd [of s m] digit_B by (simp add: not_digit_no_mem)

lemma re_detect_not_mem: "re_match re_detect s = Some m \<Longrightarrow> re_match re_mem s = None"
  using re_detect_hd [of s m] digit_D by (simp add: not_digit_no_mem)

lemma re_begin_not_watch: "re_match re_begin s = Some m \<Longrightarrow> re_match re_watch s = None"
proof (cases "re_match re_watch s")
  case None
  then show ?thesis by simp
next
  case (Some w)
  assume "re_match re_begin s = Some m"
  from re_begin_hd [OF this] re_watch_hd [OF Some] show ?thesis by simp
qed

lemma re_detect_not_watch: "re_match re_detect s = Some m \<Longrightarrow> re_match re_watch s = None"
proof (cases "re_match re_watch s")
  case None
  then show ?thesis by simp
next
  case (Some w)
  assume "re_match re_detect s = Some m"
  from re_detect_hd [OF this] re_watch_hd [OF Some] show ?thesis by simp
qed

lemma re_detect_not_begin: "re_match re_detect s = Some m \<Longrightarrow> re_match re_begin s = None"
proof (cases "re_match re_begin s")
  case None
  then show ?thesis by simp
next
  case (Some w)
  assume "re_match re_detect s = Some m"
  from re_detect_hd [OF this] re_begin_hd [OF Some] show ?thesis by simp
qed

lemma procline_mem:
  "re_match re_mem line = Some m \<Longrightarrow>
   procline far RegsList line st =
     (case Option.bind (group m ''vaddr'') (VirtMap st) of
        None \<Rightarrow> defaultFunc far m st
      | Some func \<Rightarrow> displayFunc far func m st)"
  by (simp add: procline_def)

lemma procline_watch:
  "re_match re_watch line = Some m \<Longrightarrow> procline far RegsList line st = handleWatch m st"
  by (simp add: procline_def re_watch_not_mem)

lemma procline_begin:
  "re_match re_begin line = Some m \<Longrightarrow> procline far RegsList line st = handleBegin m st"
  by (simp add: procline_def re_begin_not_mem re_begin_not_watch)

lemma procline_detect:
  "re_match re_detect line = Some m \<Longrightarrow> procline far RegsList line st = handleDetect RegsList m st"
  by (simp add: procline_def re_detect_not_mem re_detect_not_watch re_detect_not_begin)

lemma rmatch_extends:
  "(p', r', g') \<in> set (rmatch x (p, r, g)) \<Longrightarrow> \<exists>e. g' = e @ g"
proof (induction x arbitrary: p r g p' r' g')
  case (Group n x)
  then show ?case by fastforce
next
  case (Opt x)
  then show ?case by fastforce
next
  case (Seq x y)
  from Seq.prems obtain p1 r1 g1 where
    a: "(p1, r1, g1) \<in> set (rmatch x (p, r, g))" and b: "(p', r', g') \<in> set (rmatch y (p1, r1, g1))"
    by auto
  from Seq.IH(1) [OF a] Seq.IH(2) [OF b] show ?case by auto
qed (auto split: if_splits)

lemma rmatch_sure_groups:
  "(p', r', g') \<in> set (rmatch x (p, r, g)) \<Longrightarrow> n \<in> sure_groups x \<union> fst ` set g \<Longrightarrow>
   n \<in> fst ` set g'"
proof (induction x arbitrary: p r g p' r' g')
  case (Group k x)
  from Group.prems(1) obtain g1 where
    a: "(p', r', g1) \<in> set (rmatch x (p, r, g))" and g': "g' = (k, p, p') # g1"
    by auto
  show ?case
  proof (cases "n = k")
    case True
    with g' show ?thesis by simp
  next
    case False
    with Group.prems(2) have "n \<in> sure_groups x \<union> fst ` set g" by simp
    from Group.IH [OF a this] g' show ?thesis by simp
  qed
next
  case (Opt x)
  from Opt.prems(2) have n: "n \<in> fst ` set g" by simp
  from Opt.prems(1) have "(p', r', g') \<in> set (rmatch x (p, r, g)) \<or> g' = g" by auto
  then show ?case
  proof
    assume a: "(p', r', g') \<in> set (rmatch x (p, r, g))"
    from rmatch_extends [OF a] n show ?thesis by auto
  next
    assume "g' = g"
    with n show ?thesis by simp
  qed
next
  case (Seq x y)
  from Seq.prems(1) obtain p1 r1 g1 where
    a: "(p1, r1, g1) \<in> set (rmatch x (p, r, g))" and b: "(p', r', g') \<in> set (rmatch y (p1, r1, g1))"
    by auto
  from Seq.prems(2) consider "n \<in> sure_groups x \<union> fst ` set g" | "n \<in> sure_groups y" by auto
  then show ?case
  proof cases
    case 1
    from Seq.IH(1) [OF a 1] have "n \<in> fst ` set g1" .
    then have "n \<in> sure_groups y \<union> fst ` set g1" by simp
    from Seq.IH(2) [OF b this] show ?thesis .
  next
    case 2
    then have "n \<in> sure_groups y \<union> fst ` set g1" by simp
    from Seq.IH(2) [OF b this] show ?thesis .
  qed
qed (auto split: if_splits)

lemma re_match_group:
  assumes "re_match x s = Some m" and "n \<in> sure_groups x"
  shows "\<exists>t. group m n = Some t"
proof -
  from assms(1) obtain p r g rest where
    a: "rmatch x (0, s, []) = (p, r, g) # rest" and m: "m = \<lparr>mstring = s, spans = g\<rparr>"
    by (auto simp: re_match_def split: list.splits)
  from a have "(p, r, g) \<in> set (rmatch x (0, s, []))" by simp
  from rmatch_sure_groups [OF this, of n] assms(2) have "n \<in> fst ` set g" by simp
  then have "map_of g n \<noteq> None" by (simp add: map_of_eq_None_iff)
  with m show ?thesis by (auto simp: group_def split: option.splits)
qed

lemma sure_groups_watch:
  "sure_groups re_watch = {''type'', ''pos'', ''vaddr'', ''paddr''}"
  by (auto simp: re_watch_def cat_def)

lemma sure_groups_detect: "sure_groups re_detect = {''name'', ''arch''}"
  by (auto simp: re_detect_def cat_def)

lemma sure_groups_mem: "sure_groups re_mem = {''time'', ''vaddr'', ''val'', ''changed''}"
  by (auto simp: re_mem_def TIMEPRE_S_def cat_def)

lemma re_watch_groups:
  assumes "re_match re_watch line = Some m"
  shows "\<exists>ty pos vaddr paddr. group m ''type'' = Some ty \<and> group m ''pos'' = Some pos \<and>
           group m ''vaddr'' = Some vaddr \<and> group m ''paddr'' = Some paddr"
  using re_match_group [OF assms, of "''type''"] re_match_group [OF assms, of "''pos''"]
    re_match_group [OF assms, of "''vaddr''"] re_match_group [OF assms, of "''paddr''"]
  by (auto simp: sure_groups_watch)

lemma re_mem_groups:
  assumes "re_match re_mem line = Some m"
  shows "\<exists>time vaddr val changed. group m ''time'' = Some time \<and> group m ''vaddr'' = Some vaddr \<and>
           group m ''val'' = Some val \<and> group m ''changed'' = Some changed"
  using re_match_group [OF assms, of "''time''"] re_match_group [OF assms, of "''vaddr''"]
    re_match_group [OF assms, of "''val''"] re_match_group [OF assms, of "''changed''"]
  by (auto simp: sure_groups_mem)

lemma getClock_frame:
  "getClock far m st = Inr (clk, st') \<Longrightarrow> VirtMap st' = VirtMap st \<and> ArchRegs st' = ArchRegs st"
  by (auto simp: getClock_def Let_def split: sum.splits option.splits)

lemma displayFunc_frame:
  "displayFunc far self m st = Inr (out, st') \<Longrightarrow> VirtMap st' = VirtMap st \<and> ArchRegs st' = ArchRegs st"
  by (auto simp: displayFunc_def Let_def split: sum.splits if_splits dest: getClock_frame)

lemma defaultFunc_frame:
  "defaultFunc far m st = Inr (out, st') \<Longrightarrow> VirtMap st' = VirtMap st \<and> ArchRegs st' = ArchRegs st"
  by (auto simp: defaultFunc_def Let_def split: sum.splits dest: getClock_frame)

lemma handleDetect_frame:
  "handleDetect RegsList m st = Inr (out, st') \<Longrightarrow> VirtMap st' = VirtMap st \<and> LastClock st' = LastClock st"
  by (auto simp: handleDetect_def Let_def split: option.splits)

lemma procline_keeps_VirtMap:
  assumes "procline far RegsList line st = Inr (out, st')"
    and "re_match re_watch line = None" and "re_match re_begin line = None"
  shows "VirtMap st' = VirtMap st"
proof (cases "re_match re_mem line")
  case (Some m)
  from assms(1) show ?thesis unfolding procline_mem [OF Some]
    by (auto split: option.splits dest: displayFunc_frame defaultFunc_frame)
next
  case None
  show ?thesis
  proof (cases "re_match re_detect line")
    case (Some m)
    from assms(1) show ?thesis unfolding procline_detect [OF Some]
      by (auto dest: handleDetect_frame)
  next
    case d: None
    from assms d None show ?thesis by (auto simp: procline_def)
  qed
qed

lemma handleWatch_Inr:
  assumes "handleWatch m st = Inr (out, st')"
  shows "\<exists>vaddr paddr ty pos md.
           group m ''vaddr'' = Some vaddr \<and> group_int 16 m ''paddr'' = Inr paddr \<and>
           group m ''type'' = Some ty \<and> group_int 10 m ''pos'' = Inr pos \<and>
           memDisplay_init (case ArchRegs st paddr of Some reginfo \<Rightarrow> reginfo | None \<Rightarrow> Tuple2 vaddr [])
             ty pos = Inr md \<and>
           out = [mstring m] \<and> st' = st\<lparr>VirtMap := (VirtMap st)(vaddr \<mapsto> md)\<rparr>"
  using assms by (auto simp: handleWatch_def split: option.splits sum.splits)

section \<open>Properties of the handlers\<close>

lemma handleWatch_key:
  assumes "handleWatch w st = Inr (out, st')" and "group w ''vaddr'' \<noteq> Some v"
  shows "VirtMap st' v = VirtMap st v"
proof -
  from handleWatch_Inr [OF assms(1)] obtain vaddr md where
    "group w ''vaddr'' = Some vaddr" and "st' = st\<lparr>VirtMap := (VirtMap st)(vaddr \<mapsto> md)\<rparr>"
    by blast
  with assms(2) show ?thesis by auto
qed

lemma procline_keeps_key:
  assumes "procline far RegsList line st = Inr (out, st')"
    and "re_match re_begin line = None"
    and "case re_match re_watch line of None \<Rightarrow> True | Some w \<Rightarrow> group w ''vaddr'' \<noteq> Some v"
  shows "VirtMap st' v = VirtMap st v"
proof (cases "re_match re_watch line")
  case None
  from procline_keeps_VirtMap [OF assms(1) None assms(2)] show ?thesis by simp
next
  case (Some w)
  with assms(3) have "group w ''vaddr'' \<noteq> Some v" by simp
  moreover from assms(1) have "handleWatch w st = Inr (out, st')"
    unfolding procline_watch [OF Some] .
  ultimately show ?thesis by (intro handleWatch_key)
qed

lemma proclines_keep_key:
  "proclines far RegsList ls st = Inr (out, st') \<Longrightarrow>
   \<forall>l \<in> set ls. re_match re_begin l = None \<and>
      (case re_match re_watch l of None \<Rightarrow> True | Some w \<Rightarrow> group w ''vaddr'' \<noteq> Some v) \<Longrightarrow>
   VirtMap st' v = VirtMap st v"
proof (induction ls arbitrary: st out)
  case Nil
  then show ?case by simp
next
  case (Cons l ls)
  from Cons.prems(1) obtain o1 s1 o2 where
    a: "procline far RegsList l st = Inr (o1, s1)" and b: "proclines far RegsList ls s1 = Inr (o2, st')"
    by (auto split: sum.splits)
  from Cons.prems(2) have "VirtMap s1 v = VirtMap st v"
    by (intro procline_keeps_key [OF a]) auto
  moreover from Cons.prems(2) have "VirtMap st' v = VirtMap s1 v"
    by (intro Cons.IH [OF b]) auto
  ultimately show ?case by simp
qed

lemma handleWatch_ok:
  assumes "group m ''vaddr'' = Some vaddr" and "group_int 16 m ''paddr'' = Inr paddr"
    and "group m ''type'' = Some ty" and "group_int 10 m ''pos'' = Inr pos"
    and "memDisplay_init (case ArchRegs st paddr of Some reginfo \<Rightarrow> reginfo | None \<Rightarrow> Tuple2 vaddr [])
           ty pos = Inr md"
  shows "handleWatch m st = Inr ([mstring m], st\<lparr>VirtMap := (VirtMap st)(vaddr \<mapsto> md)\<rparr>)"
  using assms by (auto simp: handleWatch_def split: option.splits)


text \<open>
  Claim C10.  A watch line for a virtual address replaces whatever was registered for it
  before: the entry is the display strategy built from this line's type and position and
  from the descriptor its physical address resolves to at that moment (or the synthetic
  one), whatever \<open>VirtMap\<close> held.  Until a begin line or another watch line for the same
  address, every memory-value line for that address is formatted by that strategy.
\<close>

theorem later_watch_replaces:
  assumes "re_match re_watch line2 = Some m2"
    and "procline far RegsList line2 st1 = Inr (out2, st2)"
    and "proclines far RegsList ls st2 = Inr (out3, st3)"
    and "\<forall>l \<in> set ls. re_match re_begin l = None \<and>
           (case re_match re_watch l of
              None \<Rightarrow> True
            | Some w \<Rightarrow> group w ''vaddr'' \<noteq> group m2 ''vaddr'')"
    and "re_match re_mem line = Some m"
    and "group m ''vaddr'' = group m2 ''vaddr''"
  shows "\<exists>vaddr paddr ty pos md.
           group m2 ''vaddr'' = Some vaddr \<and> group_int 16 m2 ''paddr'' = Inr paddr \<and>
           group m2 ''type'' = Some ty \<and> group_int 10 m2 ''pos'' = Inr pos \<and>
           memDisplay_init
             (case ArchRegs st1 paddr of Some reginfo \<Rightarrow> reginfo | None \<Rightarrow> Tuple2 vaddr [])
             ty pos = Inr md \<and>
           VirtMap st2 vaddr = Some md \<and> VirtMap st3 vaddr = Some md \<and>
           procline far RegsList line st3 = displayFunc far md m st3"
proof -
  from assms(2) have "handleWatch m2 st1 = Inr (out2, st2)"
    unfolding procline_watch [OF assms(1)] .
  from handleWatch_Inr [OF this] obtain vaddr paddr ty pos md where
    g: "group m2 ''vaddr'' = Some vaddr" "group_int 16 m2 ''paddr'' = Inr paddr"
       "group m2 ''type'' = Some ty" "group_int 10 m2 ''pos'' = Inr pos"
    and i: "memDisplay_init
             (case ArchRegs st1 paddr of Some reginfo \<Rightarrow> reginfo | None \<Rightarrow> Tuple2 vaddr [])
             ty pos = Inr md"
    and s: "st2 = st1\<lparr>VirtMap := (VirtMap st1)(vaddr \<mapsto> md)\<rparr>"
    by blast
  from s have v2: "VirtMap st2 vaddr = Some md" by simp
  from assms(4) have "\<forall>l \<in> set ls. re_match re_begin l = None \<and>
      (case re_match re_watch l of None \<Rightarrow> True | Some w \<Rightarrow> group w ''vaddr'' \<noteq> Some vaddr)"
    unfolding g(1) .
  from proclines_keep_key [OF assms(3) this] v2 have v3: "VirtMap st3 vaddr = Some md" by simp
  from assms(6) g(1) have "group m ''vaddr'' = Some vaddr" by simp
  with v3 have "procline far RegsList line st3 = displayFunc far md m st3"
    unfolding procline_mem [OF assms(5)] by simp
  with g i v2 v3 show ?thesis by blast
qed

theorem later_watch_replaces_witness:
  "let regs = [(0x1000::int) \<mapsto> Tuple2 ''CTRL'' [(1, ''EN''), (2, ''RUN'')]];
       RegsList = [''board'' \<mapsto> regs];
       old = \<lparr>md_type = '' OLD'', md_pos = 1, md_name = ''V1'', md_bitdefs = []\<rparr>;
       new = \<lparr>md_type = '' REG'', md_pos = 0, md_name = ''CTRL'',
               md_bitdefs = [(1, ''EN''), (2, ''RUN'')]\<rparr>;
       st1 = \<lparr>LastClock = 0, VirtMap = [''V1'' \<mapsto> old], ArchRegs = regs\<rparr>;
       st2 = st1\<lparr>VirtMap := (VirtMap st1)(''V1'' \<mapsto> new)\<rparr>;
       m2 = \<lparr>mstring = ''Watching REG(0): Addr V1(@1000)'',
              spans = [(''paddr'', 26, 30), (''vaddr'', 22, 24), (''pos'', 13, 14), (''type'', 9, 12)]\<rparr>;
       m = \<lparr>mstring = ''6: mem V1=3 (1)'',
             spans = [(''changed'', 13, 14), (''val'', 10, 11), (''vaddr'', 7, 9), (''time'', 0, 1)]\<rparr>
   in re_match re_watch ''Watching REG(0): Addr V1(@1000)'' = Some m2 \<and>
      procline unused_far RegsList ''Watching REG(0): Addr V1(@1000)'' st1 =
        Inr ([''Watching REG(0): Addr V1(@1000)''], st2) \<and>
      proclines unused_far RegsList [''hello''] st2 = Inr ([''hello''], st2) \<and>
      (\<forall>l \<in> set [''hello'']. re_match re_begin l = None \<and>
           (case re_match re_watch l of
              None \<Rightarrow> True
            | Some w \<Rightarrow> group w ''vaddr'' \<noteq> group m2 ''vaddr'')) \<and>
      re_match re_mem ''6: mem V1=3 (1)'' = Some m \<and>
      group m ''vaddr'' = group m2 ''vaddr'' \<and>
      VirtMap st1 ''V1'' = Some old \<and>
      VirtMap st2 ''V1'' = Some new \<and>
      procline unused_far RegsList ''6: mem V1=3 (1)'' st2 = displayFunc unused_far new m st2 \<and>
      printed (displayFunc unused_far new m st2) = Inr [''000.006 REG     CTRL: EN(0)=1'']"
proof -
  define regs where "regs = [(0x1000::int) \<mapsto> Tuple2 ''CTRL'' [(1::int, ''EN''), (2, ''RUN'')]]"
  define RegsList where "RegsList = [''board'' \<mapsto> regs]"
  define old where "old = \<lparr>md_type = '' OLD'', md_pos = 1, md_name = ''V1'', md_bitdefs = []\<rparr>"
  define new where "new = \<lparr>md_type = '' REG'', md_pos = 0, md_name = ''CTRL'',
               md_bitdefs = [(1::int, ''EN''), (2, ''RUN'')]\<rparr>"
  define st1 where "st1 = \<lparr>LastClock = 0, VirtMap = [''V1'' \<mapsto> old], ArchRegs = regs\<rparr>"
  define st2 where "st2 = st1\<lparr>VirtMap := (VirtMap st1)(''V1'' \<mapsto> new)\<rparr>"
  define m2 where "m2 = \<lparr>mstring = ''Watching REG(0): Addr V1(@1000)'',
              spans = [(''paddr'', 26, 30), (''vaddr'', 22, 24), (''pos'', 13, 14), (''type'', 9::nat, 12::nat)]\<rparr>"
  define m where "m = \<lparr>mstring = ''6: mem V1=3 (1)'',
             spans = [(''changed'', 13, 14), (''val'', 10, 11), (''vaddr'', 7, 9), (''time'', 0::nat, 1::nat)]\<rparr>"
  have h1: "re_match re_watch ''Watching REG(0): Addr V1(@1000)'' = Some m2"
    unfolding m2_def by code_simp
  have g: "group m2 ''vaddr'' = Some ''V1''" "group_int 16 m2 ''paddr'' = Inr 4096"
    "group m2 ''type'' = Some ''REG''" "group_int 10 m2 ''pos'' = Inr 0"
    unfolding m2_def by code_simp+
  have i: "memDisplay_init
             (case ArchRegs st1 4096 of Some reginfo \<Rightarrow> reginfo | None \<Rightarrow> Tuple2 ''V1'' [])
             ''REG'' 0 = Inr new"
    by (simp add: st1_def regs_def memDisplay_init_def new_def)
  have ms: "mstring m2 = ''Watching REG(0): Addr V1(@1000)''" by (simp add: m2_def)
  have h2: "procline unused_far RegsList ''Watching REG(0): Addr V1(@1000)'' st1 =
        Inr ([''Watching REG(0): Addr V1(@1000)''], st2)"
    unfolding procline_watch [OF h1] handleWatch_ok [OF g i] ms st2_def ..
  have n: "re_match re_mem ''hello'' = None" "re_match re_watch ''hello'' = None"
    "re_match re_begin ''hello'' = None" "re_match re_detect ''hello'' = None"
    "rstrip ''hello'' = ''hello''"
    by code_simp+
  have h3: "proclines unused_far RegsList [''hello''] st2 = Inr ([''hello''], st2)"
    by (simp add: procline_def n)
  have h4: "\<forall>l \<in> set [''hello'']. re_match re_begin l = None \<and>
           (case re_match re_watch l of
              None \<Rightarrow> True
            | Some w \<Rightarrow> group w ''vaddr'' \<noteq> group m2 ''vaddr'')"
    by (simp add: n)
  have h5: "re_match re_mem ''6: mem V1=3 (1)'' = Some m" unfolding m_def by code_simp
  have gm: "group m ''vaddr'' = Some ''V1''" unfolding m_def by code_simp
  have h6: "group m ''vaddr'' = group m2 ''vaddr''" unfolding gm g(1) ..
  from later_watch_replaces [OF h1 h2 h3 h4 h5 h6] obtain vaddr paddr ty pos md where
    w: "group m2 ''vaddr'' = Some vaddr" "group_int 16 m2 ''paddr'' = Inr paddr"
       "group m2 ''type'' = Some ty" "group_int 10 m2 ''pos'' = Inr pos"
       "memDisplay_init
             (case ArchRegs st1 paddr of Some reginfo \<Rightarrow> reginfo | None \<Rightarrow> Tuple2 vaddr [])
             ty pos = Inr md"
       "VirtMap st2 vaddr = Some md"
       "procline unused_far RegsList ''6: mem V1=3 (1)'' st2 = displayFunc unused_far md m st2"
    by blast
  from w(1-4) g have e: "vaddr = ''V1''" "paddr = 4096" "ty = ''REG''" "pos = 0" by simp_all
  from w(5) have "Inr md = (Inr new :: error + memDisplay)" unfolding e i ..
  then have "md = new" by simp
  with w(7) have c1: "procline unused_far RegsList ''6: mem V1=3 (1)'' st2 = displayFunc unused_far new m st2" by simp
  have c2: "printed (displayFunc unused_far new m st2) = Inr [''000.006 REG     CTRL: EN(0)=1'']"
    unfolding new_def m_def st2_def st1_def regs_def old_def by code_simp
  have c3: "VirtMap st1 ''V1'' = Some old" by (simp add: st1_def)
  have c4: "VirtMap st2 ''V1'' = Some new" by (simp add: st2_def)
  from h1 h2 h3 h4 h5 h6 c1 c2 c3 c4 show ?thesis
    unfolding Let_def regs_def [symmetric] RegsList_def [symmetric] old_def [symmetric]
      new_def [symmetric] st1_def [symmetric] st2_def [symmetric] m2_def [symmetric]
      m_def [symmetric]
    by blast
qed

text \<open>
  Claim C9.  A begin line (\<open>Beginning memory tracing.\<close>, with or without its newline)
  sets \<open>LastClock\<close> to 0, empties \<open>VirtMap\<close> and is echoed unchanged; in the state it
  leaves, every memory-value line, whatever its address, goes to the default formatter.
\<close>

theorem begin_resets:
  assumes "re_match re_begin line = Some mb"
  shows "procline far RegsList line st = Inr ([line], st\<lparr>LastClock := 0, VirtMap := Map.empty\<rparr>) \<and>
         (line = ''Beginning memory tracing.'' \<or>
          line = ''Beginning memory tracing.'' @ [CHR 0x0A]) \<and>
         (\<forall>l m. re_match re_mem l = Some m \<longrightarrow>
            procline far RegsList l (st\<lparr>LastClock := 0, VirtMap := Map.empty\<rparr>) =
              defaultFunc far m (st\<lparr>LastClock := 0, VirtMap := Map.empty\<rparr>))"
proof (intro conjI allI impI)
  from re_match_mstring [OF assms]
  show "procline far RegsList line st = Inr ([line], st\<lparr>LastClock := 0, VirtMap := Map.empty\<rparr>)"
    unfolding procline_begin [OF assms] handleBegin_def by simp
next
  from assms show "line = ''Beginning memory tracing.'' \<or>
          line = ''Beginning memory tracing.'' @ [CHR 0x0A]"
    by (simp only: re_begin_iff)
next
  fix l m
  assume "re_match re_mem l = Some m"
  then show "procline far RegsList l (st\<lparr>LastClock := 0, VirtMap := Map.empty\<rparr>) =
              defaultFunc far m (st\<lparr>LastClock := 0, VirtMap := Map.empty\<rparr>)"
    by (simp add: procline_mem split: option.splits Option.bind_split)
qed

theorem begin_resets_witness:
  "let old = \<lparr>md_type = '' REG'', md_pos = 0, md_name = ''CTRL'',
               md_bitdefs = [(1, ''EN''), (2, ''RUN'')]\<rparr>;
       st = \<lparr>LastClock = 0x105, VirtMap = [''V1'' \<mapsto> old], ArchRegs = Map.empty\<rparr>;
       st' = st\<lparr>LastClock := 0, VirtMap := Map.empty\<rparr>;
       mb = \<lparr>mstring = ''Beginning memory tracing.'', spans = []\<rparr>;
       m = \<lparr>mstring = ''9: 10a: mem V1=7 (5)'',
             spans = [(''changed'', 18, 19), (''val'', 15, 16), (''vaddr'', 12, 14),
                      (''clock'', 3, 6), (''time'', 0, 1)]\<rparr>
   in re_match re_begin ''Beginning memory tracing.'' = Some mb \<and>
      re_match re_mem ''9: 10a: mem V1=7 (5)'' = Some m \<and>
      procline unused_far Map.empty ''Beginning memory tracing.'' st = Inr ([''Beginning memory tracing.''], st') \<and>
      procline unused_far Map.empty ''9: 10a: mem V1=7 (5)'' st' = defaultFunc unused_far m st' \<and>
      printed (procline unused_far Map.empty ''9: 10a: mem V1=7 (5)'' st) =
        Inr [''000.009(0000005) REG     CTRL: EN(0)=1 ?(2)=4''] \<and>
      printed (defaultFunc unused_far m st') = Inr [''000.009(0000266) V1=7 (5)'']"
proof -
  define old where "old = \<lparr>md_type = '' REG'', md_pos = 0, md_name = ''CTRL'',
               md_bitdefs = [(1::int, ''EN''), (2, ''RUN'')]\<rparr>"
  define st where "st = \<lparr>LastClock = 0x105, VirtMap = [''V1'' \<mapsto> old],
    ArchRegs = (Map.empty :: int \<rightharpoonup> reginfo)\<rparr>"
  define st' where "st' = st\<lparr>LastClock := 0, VirtMap := Map.empty\<rparr>"
  define mb where "mb = \<lparr>mstring = ''Beginning memory tracing.'', spans = ([] :: caps)\<rparr>"
  define m where "m = \<lparr>mstring = ''9: 10a: mem V1=7 (5)'',
             spans = [(''changed'', 18, 19), (''val'', 15, 16), (''vaddr'', 12, 14),
                      (''clock'', 3, 6), (''time'', 0::nat, 1::nat)]\<rparr>"
  have h: "re_match re_begin ''Beginning memory tracing.'' = Some mb" unfolding mb_def by code_simp
  have r: "re_match re_mem ''9: 10a: mem V1=7 (5)'' = Some m" unfolding m_def by code_simp
  note t = begin_resets [OF h, where far = unused_far and RegsList = Map.empty and st = st, folded st'_def]
  from t have c1: "procline unused_far Map.empty ''Beginning memory tracing.'' st =
      Inr ([''Beginning memory tracing.''], st')" by blast
  from t r have c2: "procline unused_far Map.empty ''9: 10a: mem V1=7 (5)'' st' = defaultFunc unused_far m st'" by blast
  have c3: "printed (procline unused_far Map.empty ''9: 10a: mem V1=7 (5)'' st) =
        Inr [''000.009(0000005) REG     CTRL: EN(0)=1 ?(2)=4'']"
    unfolding st_def old_def by code_simp
  have c4: "printed (defaultFunc unused_far m st') = Inr [''000.009(0000266) V1=7 (5)'']"
    unfolding st'_def st_def old_def m_def by code_simp
  from h r c1 c2 c3 c4 show ?thesis
    unfolding Let_def old_def [symmetric] st_def [symmetric] st'_def [symmetric]
      mb_def [symmetric] m_def [symmetric]
    by blast
qed

text \<open>
  Claim C2, as amended.  From every state a begin line is processed without an error, and
  it resets \<open>LastClock\<close> (to 0) and \<open>VirtMap\<close> (to empty) only: the selected
  architecture registers \<open>ArchRegs\<close> are after it what they were before it.
\<close>

theorem begin_keeps_ArchRegs:
  assumes "re_match re_begin line = Some mb"
  shows "case procline far RegsList line st of
           Inl e \<Rightarrow> False
         | Inr (out, st') \<Rightarrow>
             ArchRegs st' = ArchRegs st \<and> LastClock st' = 0 \<and> VirtMap st' = Map.empty"
  unfolding procline_begin [OF assms] handleBegin_def by simp

text \<open>
  Claim C2 as stated fails: after a machine-detected line and then a begin line the
  selected registers still hold \<open>CTRL\<close> at 0x1000, which the initial set lacks, and a
  watch of that address after the begin line is still named \<open>CTRL\<close>.
\<close>

theorem begin_keeps_ArchRegs_counterexample:
  "(case proclines unused_far [''board'' \<mapsto> [(0x1000::int) \<mapsto> Tuple2 ''CTRL'' [(1, ''EN''), (2, ''RUN'')]]]
           [''Detected machine board/armv5 (Plat=0x1)'', ''Beginning memory tracing.'']
           init_state of
      Inl e \<Rightarrow> False
    | Inr (out, st) \<Rightarrow>
        ArchRegs st 0x1000 = Some (Tuple2 ''CTRL'' [(1, ''EN''), (2, ''RUN'')])) \<and>
   ArchRegs init_state 0x1000 = None \<and>
   printed (proclines unused_far [''board'' \<mapsto> [(0x1000::int) \<mapsto> Tuple2 ''CTRL'' [(1, ''EN''), (2, ''RUN'')]]]
           [''Detected machine board/armv5 (Plat=0x1)'', ''Beginning memory tracing.'',
            ''Watching REG(0): Addr V1(@1000)'', ''5: mem V1=3 (0)''] init_state) =
     Inr [''Detected machine board/armv5 (Plat=0x1)'', ''Beginning memory tracing.'',
          ''Watching REG(0): Addr V1(@1000)'', ''000.005 REG     CTRL=00000003: EN=1 RUN=1'']"
  by code_simp

theorem begin_keeps_ArchRegs_witness:
  "re_match re_begin ''Beginning memory tracing.'' =
     Some \<lparr>mstring = ''Beginning memory tracing.'', spans = []\<rparr> \<and>
   (case procline unused_far Map.empty ''Beginning memory tracing.''
           (init_state\<lparr>ArchRegs := [0x1000 \<mapsto> Tuple1 ''CTRL'']\<rparr>) of
      Inl e \<Rightarrow> False
    | Inr (out, st') \<Rightarrow>
        ArchRegs st' = ArchRegs (init_state\<lparr>ArchRegs := [0x1000 \<mapsto> Tuple1 ''CTRL'']\<rparr>) \<and>
        LastClock st' = 0 \<and> VirtMap st' = Map.empty)"
proof -
  have h: "re_match re_begin ''Beginning memory tracing.'' =
     Some \<lparr>mstring = ''Beginning memory tracing.'', spans = []\<rparr>" by code_simp
  from begin_keeps_ArchRegs [OF h] h show ?thesis by blast
qed

text \<open>
  Claim C8.  A machine-detected line selects \<open>RegsList[name]\<close>; when the name is absent,
  \<open>RegsList["ARCH:" + arch]\<close>; when that is absent too, the empty register set; and the
  line is echoed unchanged.  A line that reports name \<open>boardX\<close> and arch \<open>armv5\<close>, with
  no \<open>boardX\<close> in the catalog and an \<open>ARCH:armv5\<close> entry, selects that entry.
\<close>

theorem detect_selects:
  assumes "re_match re_detect line = Some m"
  shows "(\<exists>name arch.
            group m ''name'' = Some name \<and> group m ''arch'' = Some arch \<and>
            procline far RegsList line st =
              Inr ([line],
                   st\<lparr>ArchRegs :=
                        (case RegsList name of
                           Some ar \<Rightarrow> ar
                         | None \<Rightarrow>
                             (case RegsList (''ARCH:'' @ arch) of
                                Some ar \<Rightarrow> ar
                              | None \<Rightarrow> Map.empty))\<rparr>)) \<and>
         (group m ''name'' = Some ''boardX'' \<and> group m ''arch'' = Some ''armv5'' \<and>
          RegsList ''boardX'' = None \<and> RegsList ''ARCH:armv5'' = Some armv5 \<longrightarrow>
            procline far RegsList line st = Inr ([line], st\<lparr>ArchRegs := armv5\<rparr>))"
proof -
  from re_match_group [OF assms, of "''name''"] obtain name where
    n: "group m ''name'' = Some name" by (auto simp: sure_groups_detect)
  from re_match_group [OF assms, of "''arch''"] obtain arch where
    a: "group m ''arch'' = Some arch" by (auto simp: sure_groups_detect)
  have s: "mstring m = line" by (rule re_match_mstring [OF assms])
  have p: "procline far RegsList line st =
              Inr ([line],
                   st\<lparr>ArchRegs :=
                        (case RegsList name of
                           Some ar \<Rightarrow> ar
                         | None \<Rightarrow>
                             (case RegsList (''ARCH:'' @ arch) of
                                Some ar \<Rightarrow> ar
                              | None \<Rightarrow> Map.empty))\<rparr>)"
    unfolding procline_detect [OF assms] handleDetect_def n a s
    by (simp split: option.splits)
  have q: "procline far RegsList line st = Inr ([line], st\<lparr>ArchRegs := armv5\<rparr>)"
    if "group m ''name'' = Some ''boardX'' \<and> group m ''arch'' = Some ''armv5'' \<and>
        RegsList ''boardX'' = None \<and> RegsList ''ARCH:armv5'' = Some armv5"
    using that n a p by simp
  from n a p q show ?thesis by blast
qed

theorem detect_selects_witness:
  "let armv5 = [(0x1000::int) \<mapsto> Tuple2 ''CTRL'' [(1, ''EN''), (2, ''RUN'')]];
       RegsList = [''ARCH:armv5'' \<mapsto> armv5];
       m = \<lparr>mstring = ''Detected machine boardX/armv5 (Plat=0x1)'',
             spans = [(''arch'', 24, 29), (''name'', 17, 23)]\<rparr>
   in re_match re_detect ''Detected machine boardX/armv5 (Plat=0x1)'' = Some m \<and>
      group m ''name'' = Some ''boardX'' \<and> group m ''arch'' = Some ''armv5'' \<and>
      RegsList ''boardX'' = None \<and> RegsList ''ARCH:armv5'' = Some armv5 \<and>
      procline unused_far RegsList ''Detected machine boardX/armv5 (Plat=0x1)'' init_state =
        Inr ([''Detected machine boardX/armv5 (Plat=0x1)''], init_state\<lparr>ArchRegs := armv5\<rparr>)"
proof -
  define armv5 where "armv5 = [(0x1000::int) \<mapsto> Tuple2 ''CTRL'' [(1, ''EN''), (2, ''RUN'')]]"
  define RegsList where "RegsList = [''ARCH:armv5'' \<mapsto> armv5]"
  define m where "m = \<lparr>mstring = ''Detected machine boardX/armv5 (Plat=0x1)'',
             spans = [(''arch'', 24, 29), (''name'', 17::nat, 23::nat)]\<rparr>"
  have h: "re_match re_detect ''Detected machine boardX/armv5 (Plat=0x1)'' = Some m"
    unfolding m_def by code_simp
  have g: "group m ''name'' = Some ''boardX''" "group m ''arch'' = Some ''armv5''"
    unfolding m_def by code_simp+
  have l: "RegsList ''boardX'' = None" "RegsList ''ARCH:armv5'' = Some armv5"
    by (simp_all add: RegsList_def)
  from detect_selects [OF h, where RegsList = RegsList and ?armv5.0 = armv5 and st = init_state] g l
  have c: "procline unused_far RegsList ''Detected machine boardX/armv5 (Plat=0x1)'' init_state =
        Inr ([''Detected machine boardX/armv5 (Plat=0x1)''], init_state\<lparr>ArchRegs := armv5\<rparr>)"
    by blast
  from h g l c show ?thesis
    unfolding Let_def armv5_def [symmetric] RegsList_def [symmetric] m_def [symmetric]
    by blast
qed

text \<open>
  Claim C7 fails on a register that the table gives as a bare name.  \<open>preproc\<close> turns the
  name into the 1-tuple \<open>(name,)\<close>, and \<open>memDisplay.__init__\<close> reads \<open>reginfo[1]\<close>: the
  watch line raises IndexError, stores nothing and echoes nothing.
\<close>

theorem watch_bare_name_raises:
  "(case preproc [(''boardX'', [(0x1000, RawName ''CTRL'')])] of
      Inl e \<Rightarrow> False
    | Inr RegsList \<Rightarrow>
        printed (proclines unused_far RegsList [''Detected machine boardX/armv5 (Plat=0x1)''] init_state) =
          Inr [''Detected machine boardX/armv5 (Plat=0x1)''] \<and>
        printed (proclines unused_far RegsList
                   [''Detected machine boardX/armv5 (Plat=0x1)'',
                    ''Watching REG(0): Addr V1(@1000)''] init_state) = Inl IndexError) \<and>
   (case preproc [(''boardX'', [(0x1000, RawBits ''CTRL'' [])])] of
      Inl e \<Rightarrow> False
    | Inr RegsList \<Rightarrow>
        printed (proclines unused_far RegsList
                   [''Detected machine boardX/armv5 (Plat=0x1)'',
                    ''Watching REG(0): Addr V1(@1000)''] init_state) =
          Inr [''Detected machine boardX/armv5 (Plat=0x1)'', ''Watching REG(0): Addr V1(@1000)''])"
  by code_simp

end
